theory Spec2Isabelle
  imports Main "HOL-Library.Code_Target_Numeral"
begin

section \<open>Go values: panics, errors and dynamic values\<close>

text \<open>
  A Go function either panics or returns its (possibly multiple) results. A panic is the
  value \<open>Panic\<close>; multiple results are a tuple inside \<open>Ret\<close>. A Go \<open>error\<close> result is an
  \<open>error option\<close>, with \<open>None\<close> for \<open>nil\<close>.
\<close>

datatype panic = IndexOutOfRange | TypeAssertion | NilDereference

datatype 'a go = Panic panic | Ret 'a

text \<open>
  Formatted messages are kept symbolic: the format string and its arguments, so that neither
  \<open>%q\<close> quoting nor \<open>%d\<close> printing has to be modelled (\<open>S\<close>, \<open>Q\<close> and \<open>D\<close> are the
  arguments of \<open>%s\<close>, \<open>%q\<close> and \<open>%d\<close>). \<open>Wrap\<close> is \<open>errors.Wrap\<close> and
  \<open>errors.Wrapf\<close> of \<open>github.com/pkg/errors\<close>: the cause, the format and its arguments.
  \<open>ErrSyntax\<close> and \<open>ErrRange\<close> are the two \<open>*strconv.NumError\<close> kinds of \<open>strconv.Atoi\<close>,
  carrying the offending input.
\<close>

datatype arg = S string | Q string | D int

datatype error =
    Errorf string "arg list"
  | Wrap error string "arg list"
  | ErrSyntax string
  | ErrRange string

text \<open>
  A value of type \<open>interface{}\<close>. \<open>VList\<close> is a \<open>[]interface{}\<close>, \<open>VStrings\<close> a \<open>[]string\<close>
  (a different dynamic type), \<open>VMap\<close> a \<open>map[string]interface{}\<close>, which may itself be the
  nil map (\<open>None\<close>).
\<close>

datatype val =
    VNil
  | VBool bool
  | VInt int
  | VStr string
  | VStrings "string list"
  | VList "val list"
  | VMap "(string \<Rightarrow> val option) option"

text \<open>A \<open>map[string]interface{}\<close>: \<open>None\<close> is the nil map.\<close>

type_synonym fields = "(string \<Rightarrow> val option) option"

text \<open>Indexing a Go map: a nil map and a missing key both give the zero value, a nil interface.\<close>

definition index :: "fields \<Rightarrow> string \<Rightarrow> val" where
  "index m k = (case m of None \<Rightarrow> VNil | Some f \<Rightarrow> (case f k of None \<Rightarrow> VNil | Some v \<Rightarrow> v))"

section \<open>The Go standard library functions the code calls\<close>

text \<open>\<open>strings.Split(s, sep)\<close> for a one-byte separator: never empty, \<open>Split "" = [""]\<close>.\<close>

fun Split :: "string \<Rightarrow> char \<Rightarrow> string list" where
  "Split [] c = [[]]"
| "Split (x # xs) c =
     (if x = c then [] # Split xs c
      else (case Split xs c of y # ys \<Rightarrow> (x # y) # ys))"

text \<open>\<open>strings.Join(elems, sep)\<close>.\<close>

fun Join :: "string list \<Rightarrow> string \<Rightarrow> string" where
  "Join [] sep = []"
| "Join [e] sep = e"
| "Join (e # es) sep = e @ sep @ Join es sep"

definition HasPrefix :: "string \<Rightarrow> string \<Rightarrow> bool" where
  "HasPrefix s pre \<longleftrightarrow> length pre \<le> length s \<and> take (length pre) s = pre"

definition HasSuffix :: "string \<Rightarrow> string \<Rightarrow> bool" where
  "HasSuffix s suf \<longleftrightarrow> length suf \<le> length s \<and> drop (length s - length suf) s = suf"

definition TrimPrefix :: "string \<Rightarrow> string \<Rightarrow> string" where
  "TrimPrefix s pre = (if HasPrefix s pre then drop (length pre) s else s)"

text \<open>\<open>strings.TrimLeft(s, cutset)\<close> for a cutset of one-byte characters.\<close>

definition TrimLeft :: "string \<Rightarrow> string \<Rightarrow> string" where
  "TrimLeft s cutset = dropWhile (\<lambda>c. c \<in> set cutset) s"

text \<open>\<open>strings.ContainsRune(s, r)\<close> for a one-byte rune.\<close>

definition ContainsRune :: "string \<Rightarrow> char \<Rightarrow> bool" where
  "ContainsRune s r \<longleftrightarrow> r \<in> set s"

text \<open>
  \<open>path.Clean\<close>, on the \<open>/\<close>-separated elements of the path: empty elements and \<open>.\<close> are
  dropped; \<open>..\<close> removes the element before it when there is one that is not \<open>..\<close>, is dropped
  at the root of a rooted path, and is kept otherwise. The second argument is the output so
  far, last element first.
\<close>

fun clean_elems :: "bool \<Rightarrow> string list \<Rightarrow> string list \<Rightarrow> string list" where
  "clean_elems rooted out [] = rev out"
| "clean_elems rooted out (e # es) =
     (if e = [] \<or> e = ''.'' then clean_elems rooted out es
      else if e = ''..'' then
        (case out of
           [] \<Rightarrow> if rooted then clean_elems rooted [] es else clean_elems rooted [''..''] es
         | a # out' \<Rightarrow>
             if a = ''..'' then clean_elems rooted (''..'' # out) es
             else clean_elems rooted out' es)
      else clean_elems rooted (e # out) es)"

definition Clean :: "string \<Rightarrow> string" where
  "Clean p =
     (if p = [] then ''.''
      else
        let rooted = (hd p = CHR ''/'');
            body = Join (clean_elems rooted [] (Split p CHR ''/'')) ''/''
        in if rooted then CHR ''/'' # body
           else if body = [] then ''.'' else body)"

text \<open>
  \<open>path.Join\<close>: the leading empty elements are skipped, the rest is joined with \<open>/\<close> and
  cleaned; the result is empty when every element is.
\<close>

definition path_Join :: "string list \<Rightarrow> string" where
  "path_Join elems =
     (case dropWhile (\<lambda>e. e = []) elems of
        [] \<Rightarrow> []
      | es \<Rightarrow> Clean (Join es ''/''))"

text \<open>
  \<open>strconv.Atoi\<close> with a 64-bit \<open>int\<close>: \<open>strconv.ParseUint\<close> in base 10 reads the digits
  left to right and stops at the first byte that is not a digit (syntax error) or at the
  first overflow of 64 bits (range error, with the largest value); \<open>strconv.ParseInt\<close>
  takes an optional sign and clamps to the signed range.
\<close>

definition is_digit :: "char \<Rightarrow> bool" where
  "is_digit c \<longleftrightarrow> c \<in> set ''0123456789''"

definition digit_val :: "char \<Rightarrow> nat" where
  "digit_val c = of_char c - of_char CHR ''0''"

datatype num_error = Syntax | Range

fun ParseUint_loop :: "nat \<Rightarrow> string \<Rightarrow> nat \<times> num_error option" where
  "ParseUint_loop n [] = (n, None)"
| "ParseUint_loop n (c # cs) =
     (if \<not> is_digit c then (0, Some Syntax)
      else if n \<ge> (2 ^ 64 - 1) div 10 + 1 then (2 ^ 64 - 1, Some Range)
      else if n * 10 + digit_val c > 2 ^ 64 - 1 then (2 ^ 64 - 1, Some Range)
      else ParseUint_loop (n * 10 + digit_val c) cs)"

definition ParseUint :: "string \<Rightarrow> nat \<times> num_error option" where
  "ParseUint s = (if s = [] then (0, Some Syntax) else ParseUint_loop 0 s)"

definition ParseInt :: "string \<Rightarrow> int \<times> num_error option" where
  "ParseInt s =
     (if s = [] then (0, Some Syntax)
      else
        let neg = (hd s = CHR ''-'');
            s' = (if hd s = CHR ''+'' \<or> hd s = CHR ''-'' then tl s else s);
            (un, err) = ParseUint s'
        in if err = Some Syntax then (0, Some Syntax)
           else if \<not> neg \<and> un \<ge> 2 ^ 63 then (2 ^ 63 - 1, Some Range)
           else if neg \<and> un > 2 ^ 63 then (- (2 ^ 63), Some Range)
           else (if neg then - int un else int un, None))"

definition Atoi :: "string \<Rightarrow> int \<times> error option" where
  "Atoi s =
     (case ParseInt s of
        (i, None) \<Rightarrow> (i, None)
      | (i, Some Syntax) \<Rightarrow> (i, Some (ErrSyntax s))
      | (i, Some Range) \<Rightarrow> (i, Some (ErrRange s)))"

section \<open>The KV path adapter\<close>

text \<open>
  The repository holds three versions of package \<open>kv\<close>. They share their names, so the
  definitions carry a suffix: \<open>_A\<close> is \<open>src/kv/kv.go\<close>, \<open>_B\<close> is the first-segment version
  (the first file of \<open>src/unnamed/part_002\<close>), \<open>_C\<close> is the mount-aware version (the second
  file of \<open>src/unnamed/part_002\<close>).
\<close>

definition ReadPrefix :: string where "ReadPrefix = ''data''"
definition WritePrefix :: string where "WritePrefix = ReadPrefix"
definition ListPrefix :: string where "ListPrefix = ''metadata''"

subsection \<open>Path rewriting\<close>

text \<open>
  \<open>fixPath\<close> of \<open>src/kv/kv.go\<close>. The slice expressions \<open>pp[:1]\<close> and \<open>pp[1:]\<close> panic on an
  empty slice.
\<close>

definition fixPath_A :: "string \<Rightarrow> string \<Rightarrow> string go" where
  "fixPath_A p pfx =
     (let pp = Split p CHR ''/''
      in if length pp < 1 then Panic IndexOutOfRange
         else Ret (path_Join (take 1 pp @ [pfx] @ drop 1 pp)))"

text \<open>\<open>FixPath\<close> of the first-segment version: \<open>pp[1]\<close> panics when \<open>p\<close> has no \<open>/\<close>.\<close>

definition FixPath_B :: "string \<Rightarrow> string \<Rightarrow> string go" where
  "FixPath_B p pfx =
     (let pp = Split p CHR ''/''
      in if length pp < 2 then Panic IndexOutOfRange
         else if pp ! 1 = pfx then Ret p
         else Ret (path_Join (take 1 pp @ [pfx] @ drop 1 pp)))"

text \<open>\<open>FixPath\<close> of the mount-aware version.\<close>

definition FixPath_C :: "string \<Rightarrow> string \<Rightarrow> string \<Rightarrow> string go" where
  "FixPath_C path mount pfx =
     (let mount' = (if \<not> HasSuffix mount ''/'' then mount @ ''/'' else mount);
          secretPath = TrimPrefix path mount';
          pp = Split secretPath CHR ''/''
      in if length pp < 1 then Panic IndexOutOfRange
         else if pp ! 0 = pfx then Ret path
         else Ret (mount' @ pfx @ ''/'' @ secretPath))"

subsection \<open>Version detection\<close>

text \<open>
  An entry of the mount table (\<open>*api.MountOutput\<close>): its type and its options. Indexing the
  options gives the empty string for a missing key. The table is a Go map, ranged over in an
  unspecified order: it is the list of its entries in the order the \<open>range\<close> visits them.
  \<open>Sys().ListMounts()\<close> returns the table and an error.
\<close>

record mount_output =
  Type :: string
  Options :: "string \<Rightarrow> string option"

type_synonym mounts = "(string \<times> mount_output) list"

definition option_of :: "mount_output \<Rightarrow> string \<Rightarrow> string" where
  "option_of m k = (case Options m k of None \<Rightarrow> [] | Some v \<Rightarrow> v)"

text \<open>The \<open>range\<close> loop of \<open>getVersion\<close> in \<open>src/kv/kv.go\<close>.\<close>

fun getVersion_A_range :: "mounts \<Rightarrow> string \<Rightarrow> int \<times> error option" where
  "getVersion_A_range [] p = (0, Some (Errorf ''failed to get mount for path: %s'' [S p]))"
| "getVersion_A_range ((k, m) # ms) p =
     (if \<not> HasPrefix p k then getVersion_A_range ms p
      else if Type m \<noteq> ''kv'' then
        (0, Some (Errorf ''matching mount %s for path %s is not of type kv'' [S k, S p]))
      else
        (case Atoi (option_of m ''version'') of
           (version, Some err) \<Rightarrow> (version, Some err)
         | (version, None) \<Rightarrow>
             if version = 1 \<or> version = 2 then (version, None)
             else (version, Some (Errorf ''unknown version: %d'' [D version]))))"

definition getVersion_A :: "mounts \<times> error option \<Rightarrow> string \<Rightarrow> int \<times> error option" where
  "getVersion_A listMounts p =
     (case listMounts of
        (mounts, Some err) \<Rightarrow> (0, Some err)
      | (mounts, None) \<Rightarrow> getVersion_A_range mounts p)"

text \<open>The first-segment version: the result of \<open>strconv.Atoi\<close> is returned as it is.\<close>

fun getVersion_B_range :: "mounts \<Rightarrow> string \<Rightarrow> int \<times> error option" where
  "getVersion_B_range [] p = (0, Some (Errorf ''failed to get mount for path: %s'' [S p]))"
| "getVersion_B_range ((k, m) # ms) p =
     (if \<not> HasPrefix p k then getVersion_B_range ms p
      else if Type m = ''kv'' then Atoi (option_of m ''version'')
      else if Type m = ''generic'' then (1, None)
      else (0, Some (Errorf ''matching mount %s for path %s is not of type kv'' [S k, S p])))"

definition getVersion_B :: "mounts \<times> error option \<Rightarrow> string \<Rightarrow> int \<times> error option" where
  "getVersion_B listMounts p =
     (case listMounts of
        (mounts, Some err) \<Rightarrow> (0, Some err)
      | (mounts, None) \<Rightarrow> getVersion_B_range mounts p)"

text \<open>The mount-aware version also returns the key of the matching mount.\<close>

fun getVersionAndMount_range :: "mounts \<Rightarrow> string \<Rightarrow> int \<times> string \<times> error option" where
  "getVersionAndMount_range [] p =
     (0, [], Some (Errorf ''failed to get mount for path: %s'' [S p]))"
| "getVersionAndMount_range ((k, m) # ms) p =
     (if \<not> HasPrefix p k then getVersionAndMount_range ms p
      else if Type m = ''kv'' then
        (case Atoi (option_of m ''version'') of
           (version, Some err) \<Rightarrow> (0, [], Some err)
         | (version, None) \<Rightarrow> (version, k, None))
      else if Type m = ''generic'' then (1, k, None)
      else (0, [], Some (Errorf ''matching mount %s for path %s is not of type kv'' [S k, S p])))"

definition getVersionAndMount ::
  "mounts \<times> error option \<Rightarrow> string \<Rightarrow> int \<times> string \<times> error option" where
  "getVersionAndMount listMounts p =
     (case listMounts of
        (mounts, Some err) \<Rightarrow> (0, [], Some err)
      | (mounts, None) \<Rightarrow> getVersionAndMount_range mounts p)"

subsection \<open>The client handle and its construction\<close>

text \<open>
  \<open>Client\<close> without its \<open>*api.Client\<close>: the wrapped client is the collaborator, whose
  operations the functions below take as arguments. The mount-aware version adds \<open>Mount\<close>.
\<close>

record client =
  Version :: int

record client_C = client +
  Mount :: string

definition New_A :: "mounts \<times> error option \<Rightarrow> string \<Rightarrow> client option \<times> error option" where
  "New_A listMounts p =
     (case getVersion_A listMounts p of
        (version, Some err) \<Rightarrow> (None, Some err)
      | (version, None) \<Rightarrow> (Some \<lparr>Version = version\<rparr>, None))"

definition New_B :: "mounts \<times> error option \<Rightarrow> string \<Rightarrow> client option \<times> error option" where
  "New_B listMounts p =
     (if \<not> ContainsRune p CHR ''/'' then
        (None, Some (Errorf (''path %s must contain at least one '' @ [CHR 0x27, CHR ''/'', CHR 0x27])
                       [S p]))
      else
        (case getVersion_B listMounts p of
           (version, Some err) \<Rightarrow> (None, Some err)
         | (version, None) \<Rightarrow> (Some \<lparr>Version = version\<rparr>, None)))"

definition New_C :: "mounts \<times> error option \<Rightarrow> string \<Rightarrow> client_C option \<times> error option" where
  "New_C listMounts p =
     (if HasPrefix p ''/'' then
        (None, Some (Errorf (''path %s must not start with '' @ [CHR 0x27, CHR ''/'', CHR 0x27])
                       [S p]))
      else if \<not> ContainsRune p CHR ''/'' then
        (None, Some (Errorf (''path %s must contain at least one '' @ [CHR 0x27, CHR ''/'', CHR 0x27])
                       [S p]))
      else
        (case getVersionAndMount listMounts p of
           (version, mount, Some err) \<Rightarrow> (None, Some err)
         | (version, mount, None) \<Rightarrow> (Some \<lparr>Version = version, Mount = mount\<rparr>, None)))"

subsection \<open>Read, Write and List\<close>

text \<open>
  \<open>api.Secret\<close>, with the fields the code reads. \<open>Logical().Read\<close> and \<open>Logical().List\<close> are
  functions from the path to a secret (\<open>None\<close> is the nil pointer) and an error;
  \<open>Logical().Write\<close> also changes the state of the service, of type \<open>'s\<close>.
\<close>

record secret_auth =
  ClientToken :: string

record secret =
  Data :: fields
  Warnings :: "string list"
  Auth :: "secret_auth option"

text \<open>The loop \<open>for _, v := range ... { keys = append(keys, v.(string)) }\<close>.\<close>

fun keys_of :: "val list \<Rightarrow> string list go" where
  "keys_of [] = Ret []"
| "keys_of (VStr k # vs) = (case keys_of vs of Panic x \<Rightarrow> Panic x | Ret ks \<Rightarrow> Ret (k # ks))"
| "keys_of (v # vs) = Panic TypeAssertion"

text \<open>\<open>s.Data["data"].(map[string]interface{})\<close> and \<open>s.Data["keys"].([]interface{})\<close>.\<close>

definition unwrap_data :: "secret \<Rightarrow> (fields \<times> error option) go" where
  "unwrap_data s =
     (case index (Data s) ''data'' of VMap m \<Rightarrow> Ret (m, None) | _ \<Rightarrow> Panic TypeAssertion)"

definition extract_keys :: "secret \<Rightarrow> (string list option \<times> error option) go" where
  "extract_keys s =
     (case index (Data s) ''keys'' of
        VList vs \<Rightarrow> (case keys_of vs of Panic x \<Rightarrow> Panic x | Ret ks \<Rightarrow> Ret (Some ks, None))
      | _ \<Rightarrow> Panic TypeAssertion)"

text \<open>\<open>src/kv/kv.go\<close>.\<close>

definition Read_A ::
  "(string \<Rightarrow> secret option \<times> error option) \<Rightarrow> client \<Rightarrow> string \<Rightarrow> (fields \<times> error option) go" where
  "Read_A logicalRead c p =
     (let origPath = p
      in case (if Version c = 2 then fixPath_A p ReadPrefix else Ret p) of
           Panic x \<Rightarrow> Panic x
         | Ret p' \<Rightarrow>
             (case logicalRead p' of
                (s, Some err) \<Rightarrow> Ret (None, Some err)
              | (None, None) \<Rightarrow> Ret (None, Some (Errorf ''failed to read path %s'' [S origPath]))
              | (Some s, None) \<Rightarrow> if Version c = 2 then unwrap_data s else Ret (Data s, None)))"

definition Write_A ::
  "('s \<Rightarrow> string \<Rightarrow> fields \<Rightarrow> (secret option \<times> error option) \<times> 's) \<Rightarrow>
     client \<Rightarrow> 's \<Rightarrow> string \<Rightarrow> fields \<Rightarrow> error option go \<times> 's" where
  "Write_A logicalWrite c st p data =
     (if Version c = 2 then
        (case fixPath_A p WritePrefix of
           Panic x \<Rightarrow> (Panic x, st)
         | Ret p' \<Rightarrow>
             (case logicalWrite st p' (Some [''data'' \<mapsto> VMap data]) of
                ((s, err), st') \<Rightarrow> (Ret err, st')))
      else
        (case logicalWrite st p data of ((s, err), st') \<Rightarrow> (Ret err, st')))"

definition List_A ::
  "(string \<Rightarrow> secret option \<times> error option) \<Rightarrow> client \<Rightarrow> string \<Rightarrow>
     (string list option \<times> error option) go" where
  "List_A logicalList c p =
     (let origPath = p
      in case (if Version c = 2 then fixPath_A p ListPrefix else Ret p) of
           Panic x \<Rightarrow> Panic x
         | Ret p' \<Rightarrow>
             (case logicalList p' of
                (s, Some err) \<Rightarrow> Ret (None, Some err)
              | (None, None) \<Rightarrow> Ret (None, Some (Errorf ''failed to list path %s'' [S origPath]))
              | (Some s, None) \<Rightarrow> extract_keys s))"

text \<open>The first-segment version.\<close>

definition Read_B ::
  "(string \<Rightarrow> secret option \<times> error option) \<Rightarrow> client \<Rightarrow> string \<Rightarrow> (fields \<times> error option) go" where
  "Read_B logicalRead c p =
     (case (if Version c = 2 then FixPath_B p ReadPrefix else Ret p) of
        Panic x \<Rightarrow> Panic x
      | Ret p' \<Rightarrow>
          (case logicalRead p' of
             (s, Some err) \<Rightarrow> Ret (None, Some err)
           | (None, None) \<Rightarrow> Ret (None, None)
           | (Some s, None) \<Rightarrow>
               if Data s = None then Ret (None, None)
               else if Version c = 2 then unwrap_data s
               else Ret (Data s, None)))"

definition Write_B ::
  "('s \<Rightarrow> string \<Rightarrow> fields \<Rightarrow> (secret option \<times> error option) \<times> 's) \<Rightarrow>
     client \<Rightarrow> 's \<Rightarrow> string \<Rightarrow> fields \<Rightarrow> error option go \<times> 's" where
  "Write_B logicalWrite c st p data =
     (if Version c = 2 then
        (case FixPath_B p WritePrefix of
           Panic x \<Rightarrow> (Panic x, st)
         | Ret p' \<Rightarrow>
             (case logicalWrite st p' (Some [''data'' \<mapsto> VMap data]) of
                ((s, err), st') \<Rightarrow> (Ret err, st')))
      else
        (case logicalWrite st p data of ((s, err), st') \<Rightarrow> (Ret err, st')))"

definition List_B ::
  "(string \<Rightarrow> secret option \<times> error option) \<Rightarrow> client \<Rightarrow> string \<Rightarrow>
     (string list option \<times> error option) go" where
  "List_B logicalList c p =
     (case (if Version c = 2 then FixPath_B p ListPrefix else Ret p) of
        Panic x \<Rightarrow> Panic x
      | Ret p' \<Rightarrow>
          (case logicalList p' of
             (s, Some err) \<Rightarrow> Ret (None, Some err)
           | (None, None) \<Rightarrow> Ret (None, None)
           | (Some s, None) \<Rightarrow>
               if Data s = None then Ret (None, None) else extract_keys s))"

text \<open>The mount-aware version.\<close>

definition Read_C ::
  "(string \<Rightarrow> secret option \<times> error option) \<Rightarrow> client_C \<Rightarrow> string \<Rightarrow>
     (fields \<times> error option) go" where
  "Read_C logicalRead c p =
     (case (if Version c = 2 then FixPath_C p (Mount c) ReadPrefix else Ret p) of
        Panic x \<Rightarrow> Panic x
      | Ret p' \<Rightarrow>
          (case logicalRead p' of
             (s, Some err) \<Rightarrow> Ret (None, Some err)
           | (None, None) \<Rightarrow> Ret (None, None)
           | (Some s, None) \<Rightarrow>
               if Data s = None then Ret (None, None)
               else if Version c = 2 then unwrap_data s
               else Ret (Data s, None)))"

definition Write_C ::
  "('s \<Rightarrow> string \<Rightarrow> fields \<Rightarrow> (secret option \<times> error option) \<times> 's) \<Rightarrow>
     client_C \<Rightarrow> 's \<Rightarrow> string \<Rightarrow> fields \<Rightarrow> error option go \<times> 's" where
  "Write_C logicalWrite c st p data =
     (if Version c = 2 then
        (case FixPath_C p (Mount c) WritePrefix of
           Panic x \<Rightarrow> (Panic x, st)
         | Ret p' \<Rightarrow>
             (case logicalWrite st p' (Some [''data'' \<mapsto> VMap data]) of
                ((s, err), st') \<Rightarrow> (Ret err, st')))
      else
        (case logicalWrite st p data of ((s, err), st') \<Rightarrow> (Ret err, st')))"

definition List_C ::
  "(string \<Rightarrow> secret option \<times> error option) \<Rightarrow> client_C \<Rightarrow> string \<Rightarrow>
     (string list option \<times> error option) go" where
  "List_C logicalList c p =
     (case (if Version c = 2 then FixPath_C p (Mount c) ListPrefix else Ret p) of
        Panic x \<Rightarrow> Panic x
      | Ret p' \<Rightarrow>
          (case logicalList p' of
             (s, Some err) \<Rightarrow> Ret (None, Some err)
           | (None, None) \<Rightarrow> Ret (None, None)
           | (Some s, None) \<Rightarrow>
               if Data s = None then Ret (None, None) else extract_keys s))"

subsection \<open>The service as a key-value store\<close>

text \<open>
  The collaborator of the round-trip property: a store from paths to the submitted bodies.
  A write stores the body under the path and answers with no secret and no error; a read
  answers with the stored body, or with no secret when the path holds nothing.
\<close>

type_synonym store = "string \<Rightarrow> fields option"

definition store_Write :: "store \<Rightarrow> string \<Rightarrow> fields \<Rightarrow> (secret option \<times> error option) \<times> store" where
  "store_Write st p data = ((None, None), st(p \<mapsto> data))"

definition store_Read :: "store \<Rightarrow> string \<Rightarrow> secret option \<times> error option" where
  "store_Read st p =
     (case st p of
        None \<Rightarrow> (None, None)
      | Some data \<Rightarrow> (Some \<lparr>Data = data, Warnings = [], Auth = None\<rparr>, None))"

section \<open>Kubernetes authentication\<close>

text \<open>
  \<open>Vault\<close> (package \<open>k8s\<close>, the first file of \<open>src/unnamed/part_000\<close>). Of the owned
  \<open>*api.Client\<close> the record keeps the token that \<open>SetToken\<close> sets.
\<close>

record vault =
  Role :: string
  TokenPath :: string
  ReAuth :: bool
  TTL :: int
  AuthMountPath :: string
  ServiceAccountTokenPath :: string
  AllowFail :: bool
  Token :: string

text \<open>
  What the component calls outside itself: \<open>ioutil.ReadFile\<close> (the files do not change
  during a call), \<open>bytes.TrimSpace\<close>, the writer \<open>vaultLogical(v.client).Write\<close> and
  \<open>Auth().Token().RenewSelf\<close>. The two service calls get the state of the service and the
  token of the client, and return the new state.
\<close>

record 's deps =
  ReadFile :: "string \<Rightarrow> string \<times> error option"
  TrimSpace :: "string \<Rightarrow> string"
  vaultLogical_Write ::
    "'s \<Rightarrow> string \<Rightarrow> string \<Rightarrow> fields \<Rightarrow> (secret option \<times> error option) \<times> 's"
  RenewSelf :: "'s \<Rightarrow> string \<Rightarrow> int \<Rightarrow> (secret option \<times> error option) \<times> 's"

definition FixAuthMountPath :: "string \<Rightarrow> string go" where
  "FixAuthMountPath p =
     (let pp = Split (TrimLeft p ''/'') CHR ''/''
      in if length pp < 1 then Panic IndexOutOfRange
         else if pp ! 0 = ''auth'' then Ret (path_Join pp)
         else Ret (path_Join ([''auth''] @ pp)))"

text \<open>
  \<open>Authenticate\<close>. \<open>s.Warnings\<close> on a nil secret and \<open>s.Auth.ClientToken\<close> on a nil
  \<open>Auth\<close> are nil dereferences.
\<close>

definition Authenticate :: "'s deps \<Rightarrow> vault \<Rightarrow> 's \<Rightarrow> (string \<times> error option) go \<times> 's" where
  "Authenticate d v st =
     (let empty = []
      in case ReadFile d (ServiceAccountTokenPath v) of
           (content, Some err) \<Rightarrow> (Ret (empty, Some (Wrap err ''failed to read jwt token'' [])), st)
         | (content, None) \<Rightarrow>
             (let jwt = TrimSpace d content;
                  data = Some [''role'' \<mapsto> VStr (Role v), ''jwt'' \<mapsto> VStr jwt]
              in case FixAuthMountPath (AuthMountPath v) of
                   Panic x \<Rightarrow> (Panic x, st)
                 | Ret mountPath \<Rightarrow>
                     (case vaultLogical_Write d st (Token v) (path_Join [mountPath, ''login'']) data of
                        ((s, Some err), st') \<Rightarrow>
                          (Ret (empty,
                             Some (Wrap err
                               ''login failed with role from environment variable VAULT_ROLE: %q''
                               [Q (Role v)])), st')
                      | ((None, None), st') \<Rightarrow> (Panic NilDereference, st')
                      | ((Some s, None), st') \<Rightarrow>
                          if length (Warnings s) > 0 then
                            (Ret (empty,
                               Some (Errorf ''login failed with: %s'' [S (Join (Warnings s) '' - '')])),
                             st')
                          else
                            (case Auth s of
                               None \<Rightarrow> (Panic NilDereference, st')
                             | Some a \<Rightarrow> (Ret (ClientToken a, None), st')))))"

definition LoadToken :: "'s deps \<Rightarrow> vault \<Rightarrow> string \<times> error option" where
  "LoadToken d v =
     (case ReadFile d (TokenPath v) of
        (content, Some err) \<Rightarrow> ([], Some (Wrap err ''failed to load token'' []))
      | (content, None) \<Rightarrow>
          if length content = 0 then ([], Some (Errorf ''found empty token'' []))
          else (content, None))"

definition UseToken :: "vault \<Rightarrow> string \<Rightarrow> vault" where
  "UseToken v token = v\<lparr>Token := token\<rparr>"

text \<open>\<open>GetToken\<close> returns its results, the handle (whose client token it may set) and the state.\<close>

definition GetToken ::
  "'s deps \<Rightarrow> vault \<Rightarrow> 's \<Rightarrow> (string \<times> error option) go \<times> vault \<times> 's" where
  "GetToken d v st =
     (let empty = []
      in case LoadToken d v of
           (token, Some err) \<Rightarrow>
             if ReAuth v then (case Authenticate d v st of (r, st') \<Rightarrow> (r, v, st'))
             else (Ret (empty, Some (Wrap err ''failed to load token form: %s'' [S (TokenPath v)])),
                   v, st)
         | (token, None) \<Rightarrow>
             (let v' = v\<lparr>Token := token\<rparr>
              in case RenewSelf d st (Token v') (TTL v') of
                   ((s, Some err), st') \<Rightarrow>
                     if ReAuth v' then (case Authenticate d v' st' of (r, st'') \<Rightarrow> (r, v', st''))
                     else (Ret (empty, Some (Wrap err ''failed to renew token'' [])), v', st')
                 | ((s, None), st') \<Rightarrow> (Ret (token, None), v', st')))"

section \<open>Collaborators of the tests\<close>

text \<open>
  The writers of the test file of package \<open>k8s\<close>: \<open>fakeWriter\<close> answers every write with a
  secret that carries the client token \<open>rootToken\<close>, \<open>fakeWriterWithWarnings\<close> with a secret
  that carries one warning and no \<open>Auth\<close>. The service has no state here.
\<close>

definition rootToken :: string where
  "rootToken = ''90b03685-e17b-7e5e-13a0-e14e45baeb2f''"

definition fakeWriter ::
  "unit \<Rightarrow> string \<Rightarrow> string \<Rightarrow> fields \<Rightarrow> (secret option \<times> error option) \<times> unit" where
  "fakeWriter st token path data =
     ((Some \<lparr>Data = None, Warnings = [], Auth = Some \<lparr>ClientToken = rootToken\<rparr>\<rparr>, None), st)"

definition fakeWriterWithWarnings ::
  "unit \<Rightarrow> string \<Rightarrow> string \<Rightarrow> fields \<Rightarrow> (secret option \<times> error option) \<times> unit" where
  "fakeWriterWithWarnings st token path data =
     ((Some \<lparr>Data = None, Warnings = [''warning''], Auth = None\<rparr>, None), st)"

text \<open>A writer whose answer carries a warning and a client token.\<close>

definition writerWithWarningAndToken ::
  "unit \<Rightarrow> string \<Rightarrow> string \<Rightarrow> fields \<Rightarrow> (secret option \<times> error option) \<times> unit" where
  "writerWithWarningAndToken st token path data =
     ((Some \<lparr>Data = None, Warnings = [''warning''], Auth = Some \<lparr>ClientToken = rootToken\<rparr>\<rparr>, None),
      st)"

text \<open>
  A file system with one file, and one with none (\<open>/not/existing/path\<close> of the tests); a
  \<open>RenewSelf\<close> that succeeds and one that fails; a \<open>bytes.TrimSpace\<close> for contents without
  surrounding white space.
\<close>

definition oneFile :: "string \<Rightarrow> string \<Rightarrow> string \<Rightarrow> string \<times> error option" where
  "oneFile name content path =
     (if path = name then (content, None)
      else ([], Some (Errorf ''open %s: no such file or directory'' [S path])))"

definition noFile :: "string \<Rightarrow> string \<times> error option" where
  "noFile path = ([], Some (Errorf ''open %s: no such file or directory'' [S path]))"

definition renewOk :: "unit \<Rightarrow> string \<Rightarrow> int \<Rightarrow> (secret option \<times> error option) \<times> unit" where
  "renewOk st token ttl = ((Some \<lparr>Data = None, Warnings = [], Auth = None\<rparr>, None), st)"

definition renewFails :: "unit \<Rightarrow> string \<Rightarrow> int \<Rightarrow> (secret option \<times> error option) \<times> unit" where
  "renewFails st token ttl = ((None, Some (Errorf ''permission denied'' [])), st)"

definition noTrim :: "string \<Rightarrow> string" where
  "noTrim content = content"

definition testVault :: "string \<Rightarrow> bool \<Rightarrow> vault" where
  "testVault tokenPath reAuth =
     \<lparr>Role = [], TokenPath = tokenPath, ReAuth = reAuth, TTL = 0,
      AuthMountPath = ''auth/kubernetes'', ServiceAccountTokenPath = ''sa-token'',
      AllowFail = False, Token = []\<rparr>"

definition testDeps ::
  "(string \<Rightarrow> string \<times> error option) \<Rightarrow>
   (unit \<Rightarrow> string \<Rightarrow> string \<Rightarrow> fields \<Rightarrow> (secret option \<times> error option) \<times> unit) \<Rightarrow>
   (unit \<Rightarrow> string \<Rightarrow> int \<Rightarrow> (secret option \<times> error option) \<times> unit) \<Rightarrow> unit deps" where
  "testDeps files writer renew =
     \<lparr>ReadFile = files, TrimSpace = noTrim, vaultLogical_Write = writer, RenewSelf = renew\<rparr>"

text \<open>A \<open>Logical().Read\<close> or \<open>Logical().List\<close> that answers every path with the given secret.\<close>

definition respond :: "secret \<Rightarrow> string \<Rightarrow> secret option \<times> error option" where
  "respond s path = (Some s, None)"

section \<open>Facts about the library functions\<close>

lemma Split_not_Nil: "Split s c \<noteq> []"
  by (induction s) (auto split: list.splits)

lemma length_Split_pos: "0 < length (Split s c)"
  using Split_not_Nil [of s c] by simp

lemma HasPrefix_append: "HasPrefix (pre @ rest) pre"
  by (simp add: HasPrefix_def)

lemma TrimPrefix_append: "TrimPrefix (pre @ rest) pre = rest"
  by (simp add: TrimPrefix_def HasPrefix_append)

lemma Split_Cons_other:
  "x \<noteq> c \<Longrightarrow> Split xs c = y # ys \<Longrightarrow> Split (x # xs) c = (x # y) # ys"
  by simp

lemma Split_append_sep: "c \<notin> set a \<Longrightarrow> Split (a @ c # b) c = a # Split b c"
  by (induction a) auto

lemma Split_no_sep: "c \<notin> set a \<Longrightarrow> Split a c = [a]"
  by (induction a) auto

lemma Split_elems: "e \<in> set (Split s c) \<Longrightarrow> c \<notin> set e"
proof (induction s arbitrary: e)
  case Nil
  then show ?case by simp
next
  case (Cons x xs)
  obtain y ys where sp: "Split xs c = y # ys"
    using Split_not_Nil [of xs c] by (cases "Split xs c") simp_all
  show ?case
  proof (cases "x = c")
    case True
    with Cons show ?thesis by auto
  next
    case False
    with Cons.prems sp have "e = x # y \<or> e \<in> set ys" by simp
    then show ?thesis
    proof
      assume "e = x # y"
      moreover have "c \<notin> set y" using Cons.IH [of y] sp by simp
      ultimately show ?thesis using False by auto
    next
      assume "e \<in> set ys"
      then show ?thesis using Cons.IH [of e] sp by simp
    qed
  qed
qed

lemma length_Split: "length (Split s c) = Suc (length (filter (\<lambda>x. x = c) s))"
proof (induction s)
  case Nil
  then show ?case by simp
next
  case (Cons x xs)
  obtain y ys where sp: "Split xs c = y # ys"
    using Split_not_Nil [of xs c] by (cases "Split xs c") simp_all
  with Cons show ?case by simp
qed

lemma Split_Join:
  "es \<noteq> [] \<Longrightarrow> \<forall>e\<in>set es. c \<notin> set e \<Longrightarrow> Split (Join es [c]) c = es"
proof (induction es "[c]" rule: Join.induct)
  case 1
  then show ?case by simp
next
  case (2 e)
  then show ?case by (simp add: Split_no_sep)
next
  case (3 e v va)
  then show ?case by (simp add: Split_append_sep)
qed

lemma clean_elems_no_dotdot:
  "''..'' \<notin> set es \<Longrightarrow>
   clean_elems rooted out es = rev out @ filter (\<lambda>e. e \<noteq> [] \<and> e \<noteq> ''.'') es"
  by (induction es arbitrary: out) auto

lemma Join_Cons_nonempty: "e \<noteq> [] \<Longrightarrow> Join (e # es) sep \<noteq> [] \<and> hd (Join (e # es) sep) = hd e"
  by (cases es) auto

lemma path_Join_segments:
  assumes "es \<noteq> []"
    and "hd es \<noteq> []" and "hd es \<noteq> ''.''"
    and "\<forall>e\<in>set es. CHR ''/'' \<notin> set e \<and> e \<noteq> ''..''"
  shows "path_Join es = Join (filter (\<lambda>e. e \<noteq> [] \<and> e \<noteq> ''.'') es) ''/''"
proof -
  from assms(1) obtain e0 rest where es: "es = e0 # rest" by (cases es) auto
  with assms have e0: "e0 \<noteq> []" "e0 \<noteq> ''.''" "CHR ''/'' \<notin> set e0" by auto
  have dw: "dropWhile (\<lambda>e. e = []) es = es" using es e0 by simp
  let ?p = "Join es ''/''"
  have pne: "?p \<noteq> []" and hdp: "hd ?p = hd e0"
    using Join_Cons_nonempty [OF e0(1), of rest "''/''"] es by auto
  have "hd e0 \<in> set e0" using e0(1) by simp
  with e0(3) have notrooted: "hd ?p \<noteq> CHR ''/''" using hdp by auto
  have sp: "Split ?p CHR ''/'' = es"
    using Split_Join [OF assms(1), of "CHR ''/''"] assms(4) by simp
  have nodd: "''..'' \<notin> set es" using assms(4) by auto
  have ce: "clean_elems False [] es = filter (\<lambda>e. e \<noteq> [] \<and> e \<noteq> ''.'') es"
    using clean_elems_no_dotdot [OF nodd, of False "[]"] by simp
  have body: "Join (filter (\<lambda>e. e \<noteq> [] \<and> e \<noteq> ''.'') es) ''/'' \<noteq> []"
    using Join_Cons_nonempty [OF e0(1), of "filter (\<lambda>e. e \<noteq> [] \<and> e \<noteq> ''.'') rest" "''/''"] es e0
    by simp
  have "Clean ?p = Join (filter (\<lambda>e. e \<noteq> [] \<and> e \<noteq> ''.'') es) ''/''"
    using pne notrooted body by (simp add: Clean_def Let_def sp ce)
  moreover have "path_Join es = Clean ?p"
    unfolding path_Join_def dw using es by simp
  ultimately show ?thesis by simp
qed

lemma filter_plain:
  "\<forall>e\<in>set es. e \<noteq> [] \<and> e \<noteq> ''.'' \<Longrightarrow> filter (\<lambda>e. e \<noteq> [] \<and> e \<noteq> ''.'') es = es"
  by (induction es) auto

lemma Join_append_empties:
  "es \<noteq> [] \<Longrightarrow> Join (es @ replicate k []) [c] = Join es [c] @ replicate k c"
proof (induction k)
  case 0
  then show ?case by simp
next
  case (Suc k)
  have snoc: "\<And>xs. xs \<noteq> [] \<Longrightarrow> Join (xs @ [[]]) [c] = Join xs [c] @ [c]"
  proof -
    fix xs :: "string list"
    show "xs \<noteq> [] \<Longrightarrow> Join (xs @ [[]]) [c] = Join xs [c] @ [c]"
      by (induction xs "[c]" rule: Join.induct) auto
  qed
  have "es @ replicate (Suc k) [] = (es @ replicate k []) @ [[]]"
    by (simp add: replicate_append_same)
  then have "Join (es @ replicate (Suc k) []) [c] = Join (es @ replicate k []) [c] @ [c]"
    using snoc [of "es @ replicate k []"] Suc.prems by simp
  also have "\<dots> = (Join es [c] @ replicate k c) @ [c]" using Suc by simp
  also have "\<dots> = Join es [c] @ replicate (Suc k) c" by (simp add: replicate_append_same)
  finally show ?case .
qed

lemma TrimLeft_slashes:
  "s \<noteq> [] \<Longrightarrow> hd s \<noteq> c \<Longrightarrow> TrimLeft (replicate n c @ s) [c] = s"
  by (cases s) (auto simp: TrimLeft_def dropWhile_append3)

section \<open>Facts about path rewriting\<close>

lemma fixPath_A_never_panics:
  "fixPath_A p pfx = Ret (path_Join (take 1 (Split p CHR ''/'') @ [pfx] @ drop 1 (Split p CHR ''/'')))"
  using length_Split_pos [of p "CHR ''/''"] by (simp add: fixPath_A_def Let_def)

lemma FixPath_C_never_panics: "FixPath_C path mount pfx \<noteq> Panic x"
  using length_Split_pos [of "TrimPrefix path (if \<not> HasSuffix mount ''/'' then mount @ ''/'' else mount)" "CHR ''/''"]
  by (simp add: FixPath_C_def Let_def)

lemma FixPath_B_unchanged:
  "2 \<le> length (Split p CHR ''/'') \<Longrightarrow> Split p CHR ''/'' ! 1 = pfx \<Longrightarrow> FixPath_B p pfx = Ret p"
  by (simp add: FixPath_B_def Let_def)

lemma FixPath_C_unchanged:
  assumes "Split (TrimPrefix path (if HasSuffix mount ''/'' then mount else mount @ ''/'')) CHR ''/'' ! 0 = pfx"
  shows "FixPath_C path mount pfx = Ret path"
proof -
  define mount' where "mount' = (if HasSuffix mount ''/'' then mount else mount @ ''/'')"
  have m: "(if \<not> HasSuffix mount ''/'' then mount @ ''/'' else mount) = mount'"
    by (simp add: mount'_def)
  have pos: "\<not> length (Split (TrimPrefix path mount') CHR ''/'') < 1"
    using length_Split_pos [of "TrimPrefix path mount'" "CHR ''/''"] by simp
  have "Split (TrimPrefix path mount') CHR ''/'' ! 0 = pfx"
    using assms by (simp only: mount'_def)
  then show ?thesis
    unfolding FixPath_C_def m Let_def using pos by simp
qed

lemma FixPath_unchanged_examples:
  "FixPath_B ''secret/data/foo'' ''data'' = Ret ''secret/data/foo''"
  "FixPath_C ''secret/data/foo'' ''secret'' ''data'' = Ret ''secret/data/foo''"
  by (simp_all add: FixPath_B_def FixPath_C_def HasSuffix_def TrimPrefix_def HasPrefix_def)

lemma FixPath_C_idempotent:
  assumes "CHR ''/'' \<notin> set pfx" and "FixPath_C path mount pfx = Ret q"
  shows "FixPath_C q mount pfx = Ret q"
proof -
  define mount' where "mount' = (if HasSuffix mount ''/'' then mount else mount @ ''/'')"
  define secretPath where "secretPath = TrimPrefix path mount'"
  have m: "(if \<not> HasSuffix mount ''/'' then mount @ ''/'' else mount) = mount'"
    by (simp add: mount'_def)
  show ?thesis
  proof (cases "Split secretPath CHR ''/'' ! 0 = pfx")
    case True
    then have "FixPath_C path mount pfx = Ret path"
      using FixPath_C_unchanged [of path mount pfx] by (simp add: secretPath_def mount'_def)
    with assms(2) show ?thesis by simp
  next
    case False
    have pos: "\<not> length (Split secretPath CHR ''/'') < 1"
      using length_Split_pos [of secretPath "CHR ''/''"] by simp
    have "FixPath_C path mount pfx = Ret (mount' @ pfx @ ''/'' @ secretPath)"
      unfolding FixPath_C_def m Let_def secretPath_def [symmetric] using pos False by simp
    with assms(2) have q: "q = mount' @ (pfx @ CHR ''/'' # secretPath)" by simp
    have tp: "TrimPrefix q mount' = pfx @ CHR ''/'' # secretPath"
      unfolding q by (rule TrimPrefix_append)
    have "Split (pfx @ CHR ''/'' # secretPath) CHR ''/'' = pfx # Split secretPath CHR ''/''"
      by (rule Split_append_sep [OF assms(1)])
    then have "Split (TrimPrefix q mount') CHR ''/'' ! 0 = pfx" by (simp add: tp)
    then show ?thesis
      using FixPath_C_unchanged [of q mount pfx] by (simp add: mount'_def)
  qed
qed

lemma FixPath_B_idempotent:
  assumes "FixPath_B p pfx = Ret q"
    and "pfx \<noteq> []" "pfx \<noteq> ''.''" "pfx \<noteq> ''..''" "CHR ''/'' \<notin> set pfx"
    and "hd (Split p CHR ''/'') \<noteq> []" "hd (Split p CHR ''/'') \<noteq> ''.''"
    and "''..'' \<notin> set (Split p CHR ''/'')"
  shows "FixPath_B q pfx = Ret q"
proof -
  let ?pp = "Split p CHR ''/''"
  have len: "2 \<le> length ?pp"
    using assms(1) by (simp add: FixPath_B_def Let_def split: if_splits)
  show ?thesis
  proof (cases "?pp ! 1 = pfx")
    case True
    have "FixPath_B p pfx = Ret p" using len True by (rule FixPath_B_unchanged)
    with assms(1) have "q = p" by simp
    with True len show ?thesis by (simp add: FixPath_B_unchanged)
  next
    case False
    obtain e0 rest where pp: "?pp = e0 # rest"
      using Split_not_Nil [of p "CHR ''/''"] by (cases ?pp) simp_all
    let ?es = "e0 # pfx # rest"
    let ?keep = "filter (\<lambda>e. e \<noteq> [] \<and> e \<noteq> ''.'')"
    have noslash: "\<forall>e\<in>set ?pp. CHR ''/'' \<notin> set e"
      using Split_elems [of _ p "CHR ''/''"] by blast
    have nodd: "\<forall>e\<in>set ?pp. e \<noteq> ''..''"
      using assms(8) by blast
    have es_ok: "\<forall>e\<in>set ?es. CHR ''/'' \<notin> set e \<and> e \<noteq> ''..''"
      using noslash nodd assms(4,5) unfolding pp by simp
    have fp: "FixPath_B p pfx = Ret (path_Join (take 1 ?pp @ [pfx] @ drop 1 ?pp))"
      using len False by (simp add: FixPath_B_def Let_def)
    have "take 1 ?pp @ [pfx] @ drop 1 ?pp = ?es"
      by (simp add: pp)
    with fp assms(1) have "q = path_Join ?es"
      by simp
    also have "\<dots> = Join (?keep ?es) ''/''"
      by (rule path_Join_segments [OF _ _ _ es_ok]) (use assms(6,7) pp in simp_all)
    also have "?keep ?es = e0 # pfx # ?keep rest"
      using assms(2,3,6,7) pp by simp
    finally have q: "q = Join (e0 # pfx # ?keep rest) ''/''" .
    have keep_ok: "\<forall>e\<in>set (e0 # pfx # ?keep rest). CHR ''/'' \<notin> set e"
      using es_ok by simp
    have "Split q CHR ''/'' = e0 # pfx # ?keep rest"
      unfolding q using Split_Join [of "e0 # pfx # ?keep rest" "CHR ''/''"] keep_ok by simp
    then show ?thesis by (simp add: FixPath_B_unchanged)
  qed
qed

section \<open>Facts about Read and Write over a store\<close>

lemma FixPath_B_returns:
  assumes "CHR ''/'' \<in> set p"
  shows "\<exists>q. FixPath_B p pfx = Ret q"
proof -
  have "length (filter (\<lambda>x. x = CHR ''/'') p) \<noteq> 0"
    using assms by (simp add: filter_empty_conv)
  then have "2 \<le> length (Split p CHR ''/'')"
    unfolding length_Split by arith
  then show ?thesis by (simp add: FixPath_B_def Let_def)
qed

lemma FixPath_C_returns: "\<exists>q. FixPath_C path mount pfx = Ret q"
  using FixPath_C_never_panics [of path mount pfx] by (cases "FixPath_C path mount pfx") auto

lemma unwrap_data_wrapped:
  "unwrap_data \<lparr>Data = Some [''data'' \<mapsto> VMap m], Warnings = ws, Auth = a\<rparr> = Ret (m, None)"
  by (simp add: unwrap_data_def index_def)

lemma roundtrip_A:
  "fst (Write_A store_Write c st p m) = Ret None
   \<and> Read_A (store_Read (snd (Write_A store_Write c st p m))) c p = Ret (m, None)"
  by (simp add: Write_A_def Read_A_def fixPath_A_never_panics store_Write_def store_Read_def
        unwrap_data_wrapped WritePrefix_def)

lemma roundtrip_B:
  assumes "Version c = 2 \<longrightarrow> CHR ''/'' \<in> set p"
  shows "fst (Write_B store_Write c st p m) = Ret None
   \<and> Read_B (store_Read (snd (Write_B store_Write c st p m))) c p = Ret (m, None)"
proof (cases "Version c = 2")
  case True
  with assms obtain q where q: "FixPath_B p ReadPrefix = Ret q"
    using FixPath_B_returns by blast
  show ?thesis
    using True q
    by (simp add: Write_B_def Read_B_def store_Write_def store_Read_def
          unwrap_data_wrapped WritePrefix_def)
next
  case False
  then show ?thesis
    by (simp add: Write_B_def Read_B_def store_Write_def store_Read_def)
qed

lemma roundtrip_C:
  "fst (Write_C store_Write c st p m) = Ret None
   \<and> Read_C (store_Read (snd (Write_C store_Write c st p m))) c p = Ret (m, None)"
proof (cases "Version c = 2")
  case True
  obtain q where q: "FixPath_C p (Mount c) ReadPrefix = Ret q"
    using FixPath_C_returns by blast
  show ?thesis
    using True q
    by (simp add: Write_C_def Read_C_def store_Write_def store_Read_def
          unwrap_data_wrapped WritePrefix_def)
next
  case False
  then show ?thesis
    by (simp add: Write_C_def Read_C_def store_Write_def store_Read_def)
qed

section \<open>Facts about version detection\<close>

lemma getVersion_B_range_generic:
  assumes "find (\<lambda>(k, m). HasPrefix p k) ms = Some (k, m)" and "Type m = ''generic''"
  shows "getVersion_B_range ms p = (1, None)"
  using assms
proof (induction ms)
  case Nil
  then show ?case by simp
next
  case (Cons km ms)
  obtain k' m' where km: "km = (k', m')" by (cases km)
  show ?case
  proof (cases "HasPrefix p k'")
    case True
    with Cons.prems km have "k' = k" "m' = m" by simp_all
    with True km Cons.prems(2) show ?thesis by simp
  next
    case False
    with Cons km show ?thesis by simp
  qed
qed

lemma getVersionAndMount_range_generic:
  assumes "find (\<lambda>(k, m). HasPrefix p k) ms = Some (k, m)" and "Type m = ''generic''"
  shows "getVersionAndMount_range ms p = (1, k, None)"
  using assms
proof (induction ms)
  case Nil
  then show ?case by simp
next
  case (Cons km ms)
  obtain k' m' where km: "km = (k', m')" by (cases km)
  show ?case
  proof (cases "HasPrefix p k'")
    case True
    with Cons.prems km have "k' = k" "m' = m" by simp_all
    with True km Cons.prems(2) show ?thesis by simp
  next
    case False
    with Cons km show ?thesis by simp
  qed
qed

lemma getVersion_A_range_not_kv:
  assumes "find (\<lambda>(k, m). HasPrefix p k) ms = Some (k, m)" and "Type m \<noteq> ''kv''"
  shows "getVersion_A_range ms p =
           (0, Some (Errorf ''matching mount %s for path %s is not of type kv'' [S k, S p]))"
  using assms
proof (induction ms)
  case Nil
  then show ?case by simp
next
  case (Cons km ms)
  obtain k' m' where km: "km = (k', m')" by (cases km)
  show ?case
  proof (cases "HasPrefix p k'")
    case True
    with Cons.prems km have "k' = k" "m' = m" by simp_all
    with True km Cons.prems(2) show ?thesis by simp
  next
    case False
    with Cons km show ?thesis by simp
  qed
qed

lemma getVersion_A_range_1_or_2:
  "getVersion_A_range ms p = (v, None) \<Longrightarrow> v = 1 \<or> v = 2"
proof (induction ms)
  case Nil
  then show ?case by simp
next
  case (Cons km ms)
  obtain k m where km: "km = (k, m)" by (cases km)
  show ?case
    using Cons km by (simp split: if_splits prod.splits option.splits)
qed

lemma getVersion_A_1_or_2: "getVersion_A listMounts p = (v, None) \<Longrightarrow> v = 1 \<or> v = 2"
  by (cases listMounts) (auto simp: getVersion_A_def getVersion_A_range_1_or_2 split: option.splits)

lemma ParseUint_loop_ok_digits:
  "ParseUint_loop n s = (u, None) \<Longrightarrow> \<forall>c\<in>set s. is_digit c"
  by (induction s arbitrary: n) (simp_all split: if_splits)

lemma ParseUint_loop_range:
  "ParseUint_loop n s = (u, Some Range) \<Longrightarrow> u = 2 ^ 64 - 1"
  by (induction s arbitrary: n) (simp_all split: if_splits)

lemma ParseUint_range: "ParseUint s = (u, Some Range) \<Longrightarrow> u = 2 ^ 64 - 1"
  using ParseUint_loop_range [of 0 s u] by (simp add: ParseUint_def split: if_splits)

lemma ParseInt_ok_numeric:
  assumes "ParseInt s = (v, None)"
  shows "s \<noteq> [] \<and> (if hd s = CHR ''+'' \<or> hd s = CHR ''-'' then tl s else s) \<noteq> []
         \<and> (\<forall>c\<in>set (if hd s = CHR ''+'' \<or> hd s = CHR ''-'' then tl s else s). is_digit c)"
proof -
  define ds where "ds = (if hd s = CHR ''+'' \<or> hd s = CHR ''-'' then tl s else s)"
  have ne: "s \<noteq> []" using assms by (auto simp: ParseInt_def)
  obtain un err where pu: "ParseUint ds = (un, err)" by (cases "ParseUint ds")
  have "err = None"
  proof (cases err)
    case None
    then show ?thesis .
  next
    case (Some a)
    show ?thesis
    proof (cases a)
      case Syntax
      with Some assms ne pu show ?thesis
        unfolding ParseInt_def Let_def ds_def [symmetric] by simp
    next
      case Range
      with Some pu have "un = 2 ^ 64 - 1" using ParseUint_range [of ds un] by simp
      with Some Range assms ne pu show ?thesis
        unfolding ParseInt_def Let_def ds_def [symmetric] by (simp split: if_splits)
    qed
  qed
  with pu have "ds \<noteq> []" and "ParseUint_loop 0 ds = (un, None)"
    by (simp_all add: ParseUint_def split: if_splits)
  then show ?thesis
    using ne ParseUint_loop_ok_digits [of 0 ds un] unfolding ds_def by simp
qed

lemma Atoi_ok_numeric:
  assumes "Atoi s = (v, None)"
  shows "s \<noteq> [] \<and> (if hd s = CHR ''+'' \<or> hd s = CHR ''-'' then tl s else s) \<noteq> []
         \<and> (\<forall>c\<in>set (if hd s = CHR ''+'' \<or> hd s = CHR ''-'' then tl s else s). is_digit c)"
proof -
  obtain i e where pi: "ParseInt s = (i, e)" by (cases "ParseInt s")
  with assms have "e = None" and "i = v"
    by (simp_all add: Atoi_def split: option.splits num_error.splits)
  with pi show ?thesis using ParseInt_ok_numeric [of s v] by simp
qed

lemma Atoi_empty: "Atoi [] = (0, Some (ErrSyntax []))"
  by (simp add: Atoi_def ParseInt_def)

lemma getVersion_range_bad_version:
  assumes "find (\<lambda>(k, m). HasPrefix p k) ms = Some (k, m)" and "Type m = ''kv''"
    and "Atoi (option_of m ''version'') = (i, Some e)"
  shows "getVersion_A_range ms p = (i, Some e)
         \<and> getVersion_B_range ms p = (i, Some e)
         \<and> getVersionAndMount_range ms p = (0, [], Some e)"
  using assms
proof (induction ms)
  case Nil
  then show ?case by simp
next
  case (Cons km ms)
  obtain k' m' where km: "km = (k', m')" by (cases km)
  show ?case
  proof (cases "HasPrefix p k'")
    case True
    with Cons.prems km have "k' = k" "m' = m" by simp_all
    with True km Cons.prems(2,3) show ?thesis by simp
  next
    case False
    with Cons km show ?thesis by simp
  qed
qed

section \<open>Facts about authentication\<close>

lemma FixAuthMountPath_returns: "\<exists>mp. FixAuthMountPath p = Ret mp"
  using length_Split_pos [of "TrimLeft p ''/''" "CHR ''/''"]
  by (simp add: FixAuthMountPath_def Let_def)

section \<open>Facts about the type assertions\<close>

lemma unwrap_data_panics:
  "\<forall>m. index (Data s) ''data'' \<noteq> VMap m \<Longrightarrow> unwrap_data s = Panic TypeAssertion"
  by (cases "index (Data s) ''data''") (simp_all add: unwrap_data_def)

lemma unwrap_data_ok:
  "index (Data s) ''data'' = VMap m \<Longrightarrow> unwrap_data s = Ret (m, None)"
  by (simp add: unwrap_data_def)

lemma keys_of_strings: "keys_of (map VStr ks) = Ret ks"
  by (induction ks) simp_all

lemma keys_of_panics:
  "\<not> (\<exists>ks. vs = map VStr ks) \<Longrightarrow> keys_of vs = Panic TypeAssertion"
proof (induction vs)
  case Nil
  then show ?case by simp
next
  case (Cons v vs)
  show ?case
  proof (cases v)
    case (VStr k)
    have "\<not> (\<exists>ks. vs = map VStr ks)"
    proof
      assume "\<exists>ks. vs = map VStr ks"
      then obtain ks where "vs = map VStr ks" ..
      with VStr have "v # vs = map VStr (k # ks)" by simp
      then have "\<exists>ks'. v # vs = map VStr ks'" by (rule exI)
      with Cons.prems show False by (rule notE)
    qed
    with Cons.IH VStr show ?thesis by simp
  qed simp_all
qed

lemma extract_keys_panics:
  assumes "\<not> (\<exists>ks. index (Data s) ''keys'' = VList (map VStr ks))"
  shows "extract_keys s = Panic TypeAssertion"
proof (cases "index (Data s) ''keys''")
  case (VList vs)
  with assms have "\<not> (\<exists>ks. vs = map VStr ks)" by simp
  then have "keys_of vs = Panic TypeAssertion" by (rule keys_of_panics)
  with VList show ?thesis by (simp add: extract_keys_def)
qed (simp_all add: extract_keys_def)

lemma extract_keys_ok:
  "index (Data s) ''keys'' = VList (map VStr ks) \<Longrightarrow> extract_keys s = Ret (Some ks, None)"
  by (simp add: extract_keys_def keys_of_strings)

section \<open>The properties of the specification\<close>

text \<open>
  C1. Mount-aware \<open>FixPath(path, mount, prefix)\<close>: for a path under the mount prefix (the
  mount with its trailing \<open>/\<close>) whose first segment after the mount prefix is not the given
  prefix, the result is the mount prefix, then the prefix segment, then \<open>/\<close> and the rest of
  the path, however many segments the mount has.
\<close>

theorem FixPath_C_inserts_after_mount:
  assumes "mount' = (if HasSuffix mount ''/'' then mount else mount @ ''/'')"
    and "path = mount' @ rest"
    and "hd (Split rest CHR ''/'') \<noteq> pfx"
  shows "FixPath_C path mount pfx = Ret (mount' @ pfx @ ''/'' @ rest)"
proof -
  have m: "(if \<not> HasSuffix mount ''/'' then mount @ ''/'' else mount) = mount'"
    using assms(1) by simp
  have tp: "TrimPrefix path mount' = rest"
    unfolding assms(2) by (rule TrimPrefix_append)
  have pos: "\<not> length (Split rest CHR ''/'') < 1"
    using length_Split_pos [of rest "CHR ''/''"] by simp
  have first: "Split rest CHR ''/'' ! 0 \<noteq> pfx"
    using assms(3) Split_not_Nil [of rest "CHR ''/''"] by (simp add: hd_conv_nth)
  show ?thesis
    unfolding FixPath_C_def m Let_def tp using pos first by simp
qed

theorem FixPath_C_inserts_after_mount_witness:
  "FixPath_C ''secret/foo'' ''secret/'' ''data'' = Ret ''secret/data/foo''
   \<and> FixPath_C ''secret/foo/kv/bar'' ''secret/foo/kv/'' ''data'' = Ret ''secret/foo/kv/data/bar''
   \<and> FixPath_C ''secret/foo/kv/bar'' ''secret/foo/kv'' ''data'' = Ret ''secret/foo/kv/data/bar''"
  using FixPath_C_inserts_after_mount
          [of "''secret/''" "''secret/''" "''secret/foo''" "''foo''" "''data''"]
        FixPath_C_inserts_after_mount
          [of "''secret/foo/kv/''" "''secret/foo/kv/''" "''secret/foo/kv/bar''" "''bar''" "''data''"]
        FixPath_C_inserts_after_mount
          [of "''secret/foo/kv/''" "''secret/foo/kv''" "''secret/foo/kv/bar''" "''bar''" "''data''"]
  by (simp add: HasSuffix_def)

text \<open>
  C2. Rewriting a path that already has the sub-path segment after its first segment should
  return it unchanged. \<open>FixPath\<close> of the first-segment and of the mount-aware version do so
  (\<open>FixPath_B_unchanged\<close>, \<open>FixPath_C_unchanged\<close>) and are idempotent (\<open>FixPath_C_idempotent\<close>;
  \<open>FixPath_B_idempotent\<close>, for a path with an ordinary first segment and no \<open>..\<close> segment).
  \<open>fixPath\<close> of \<open>src/kv/kv.go\<close> has no such test: it inserts the segment a second time.
\<close>

theorem fixPath_A_inserts_again:
  "fixPath_A ''secret/data/foo'' ''data'' = Ret ''secret/data/data/foo''"
  by (simp add: fixPath_A_def path_Join_def Clean_def)

text \<open>
  C3. Round trip over the key-value store, for every client handle (so for revision 1 and
  for revision 2), every store, every path and every field map: \<open>Write\<close> returns no error,
  and \<open>Read\<close> of the same path in the store it leaves returns the field map and no error.
  In the first-segment version a revision 2 path must contain a \<open>/\<close>, as every path under
  a mount does; otherwise \<open>FixPath\<close> panics.
\<close>

theorem Write_then_Read_returns_the_fields:
  "(fst (Write_A store_Write c st p m) = Ret None
    \<and> Read_A (store_Read (snd (Write_A store_Write c st p m))) c p = Ret (m, None))
   \<and> ((Version c = 2 \<longrightarrow> CHR ''/'' \<in> set p) \<longrightarrow>
        fst (Write_B store_Write c st p m) = Ret None
        \<and> Read_B (store_Read (snd (Write_B store_Write c st p m))) c p = Ret (m, None))
   \<and> (fst (Write_C store_Write c' st p m) = Ret None
        \<and> Read_C (store_Read (snd (Write_C store_Write c' st p m))) c' p = Ret (m, None))"
  using roundtrip_A [of c st p m] roundtrip_B [of c p st m] roundtrip_C [of c' st p m]
  by blast

theorem Write_then_Read_returns_the_fields_witness:
  "Read_A (store_Read (snd (Write_A store_Write \<lparr>Version = 2\<rparr> Map.empty ''secret/test/first''
                (Some [''Penguin'' \<mapsto> VStr ''Oswald''])))) \<lparr>Version = 2\<rparr> ''secret/test/first''
       = Ret (Some [''Penguin'' \<mapsto> VStr ''Oswald''], None)
   \<and> Read_B (store_Read (snd (Write_B store_Write \<lparr>Version = 2\<rparr> Map.empty ''secret/test/first''
                (Some [''Penguin'' \<mapsto> VStr ''Oswald''])))) \<lparr>Version = 2\<rparr> ''secret/test/first''
       = Ret (Some [''Penguin'' \<mapsto> VStr ''Oswald''], None)
   \<and> Read_C (store_Read (snd (Write_C store_Write \<lparr>Version = 2, Mount = ''secret/''\<rparr> Map.empty
                ''secret/test/first'' (Some [''Penguin'' \<mapsto> VStr ''Oswald''])))) 
          \<lparr>Version = 2, Mount = ''secret/''\<rparr> ''secret/test/first''
       = Ret (Some [''Penguin'' \<mapsto> VStr ''Oswald''], None)
   \<and> Read_A (store_Read (snd (Write_A store_Write \<lparr>Version = 1\<rparr> Map.empty ''secret/test/first''
                (Some [''Penguin'' \<mapsto> VStr ''Oswald''])))) \<lparr>Version = 1\<rparr> ''secret/test/first''
       = Ret (Some [''Penguin'' \<mapsto> VStr ''Oswald''], None)
   \<and> Read_B (store_Read (snd (Write_B store_Write \<lparr>Version = 1\<rparr> Map.empty ''secret/test/first''
                (Some [''Penguin'' \<mapsto> VStr ''Oswald''])))) \<lparr>Version = 1\<rparr> ''secret/test/first''
       = Ret (Some [''Penguin'' \<mapsto> VStr ''Oswald''], None)
   \<and> Read_C (store_Read (snd (Write_C store_Write \<lparr>Version = 1, Mount = ''secret/''\<rparr> Map.empty
                ''secret/test/first'' (Some [''Penguin'' \<mapsto> VStr ''Oswald''])))) 
          \<lparr>Version = 1, Mount = ''secret/''\<rparr> ''secret/test/first''
       = Ret (Some [''Penguin'' \<mapsto> VStr ''Oswald''], None)"
  using Write_then_Read_returns_the_fields
          [of "\<lparr>Version = 2\<rparr>" Map.empty "''secret/test/first''"
              "Some [''Penguin'' \<mapsto> VStr ''Oswald'']" "\<lparr>Version = 2, Mount = ''secret/''\<rparr>"]
        Write_then_Read_returns_the_fields
          [of "\<lparr>Version = 1\<rparr>" Map.empty "''secret/test/first''"
              "Some [''Penguin'' \<mapsto> VStr ''Oswald'']" "\<lparr>Version = 1, Mount = ''secret/''\<rparr>"]
  by simp

text \<open>
  C4. A mount of type \<open>generic\<close> is revision 1 with no error: this fails for \<open>getVersion\<close>
  of \<open>src/kv/kv.go\<close>, which rejects every mount whose type is not \<open>kv\<close>.
\<close>

theorem getVersion_A_rejects_generic:
  "getVersion_A ([(''secret/'', \<lparr>Type = ''generic'', Options = Map.empty\<rparr>)], None) ''secret/'' =
     (0, Some (Errorf ''matching mount %s for path %s is not of type kv'' [S ''secret/'', S ''secret/'']))"
  by (simp add: getVersion_A_def HasPrefix_def)

text \<open>
  C4, as the code has it. When the mount whose key is a prefix of the path (the first one
  the loop visits, if there are several) has type \<open>generic\<close>: the first-segment \<open>getVersion\<close> returns 1 and no error; the
  mount-aware \<open>getVersionAndMount\<close> returns 1, the key of that mount and no error;
  construction succeeds with revision 1 (first-segment: the path contains \<open>/\<close>; mount-aware:
  and does not start with \<open>/\<close>); \<open>getVersion\<close> of \<open>src/kv/kv.go\<close> returns the error that
  the matching mount is not of type \<open>kv\<close>.
\<close>

theorem generic_mount_is_revision_1:
  assumes "find (\<lambda>(k, m). HasPrefix p k) ms = Some (k, m)" and "Type m = ''generic''"
  shows "getVersion_B (ms, None) p = (1, None)
         \<and> getVersionAndMount (ms, None) p = (1, k, None)
         \<and> (ContainsRune p CHR ''/'' \<longrightarrow> New_B (ms, None) p = (Some \<lparr>Version = 1\<rparr>, None))
         \<and> (ContainsRune p CHR ''/'' \<and> \<not> HasPrefix p ''/'' \<longrightarrow>
              New_C (ms, None) p = (Some \<lparr>Version = 1, Mount = k\<rparr>, None))
         \<and> getVersion_A (ms, None) p =
              (0, Some (Errorf ''matching mount %s for path %s is not of type kv'' [S k, S p]))"
proof -
  have notkv: "Type m \<noteq> ''kv''" using assms(2) by simp
  have b: "getVersion_B (ms, None) p = (1, None)"
    using getVersion_B_range_generic [OF assms] by (simp add: getVersion_B_def)
  have c: "getVersionAndMount (ms, None) p = (1, k, None)"
    using getVersionAndMount_range_generic [OF assms] by (simp add: getVersionAndMount_def)
  have a: "getVersion_A (ms, None) p =
             (0, Some (Errorf ''matching mount %s for path %s is not of type kv'' [S k, S p]))"
    using getVersion_A_range_not_kv [OF assms(1) notkv] by (simp add: getVersion_A_def)
  have nb: "ContainsRune p CHR ''/'' \<longrightarrow> New_B (ms, None) p = (Some \<lparr>Version = 1\<rparr>, None)"
    by (simp add: New_B_def b)
  have nc: "ContainsRune p CHR ''/'' \<and> \<not> HasPrefix p ''/'' \<longrightarrow>
              New_C (ms, None) p = (Some \<lparr>Version = 1, Mount = k\<rparr>, None)"
    by (simp add: New_C_def c)
  from a b c nb nc show ?thesis by blast
qed

theorem generic_mount_is_revision_1_witness:
  "getVersion_B ([(''cubbyhole/'', \<lparr>Type = ''cubbyhole'', Options = Map.empty\<rparr>),
                  (''secret/'', \<lparr>Type = ''generic'', Options = Map.empty\<rparr>)], None) ''secret/'' = (1, None)
   \<and> getVersionAndMount ([(''cubbyhole/'', \<lparr>Type = ''cubbyhole'', Options = Map.empty\<rparr>),
                  (''secret/'', \<lparr>Type = ''generic'', Options = Map.empty\<rparr>)], None) ''secret/''
       = (1, ''secret/'', None)
   \<and> New_B ([(''cubbyhole/'', \<lparr>Type = ''cubbyhole'', Options = Map.empty\<rparr>),
                  (''secret/'', \<lparr>Type = ''generic'', Options = Map.empty\<rparr>)], None) ''secret/''
       = (Some \<lparr>Version = 1\<rparr>, None)
   \<and> New_C ([(''cubbyhole/'', \<lparr>Type = ''cubbyhole'', Options = Map.empty\<rparr>),
                  (''secret/'', \<lparr>Type = ''generic'', Options = Map.empty\<rparr>)], None) ''secret/''
       = (Some \<lparr>Version = 1, Mount = ''secret/''\<rparr>, None)"
  using generic_mount_is_revision_1
          [of "''secret/''"
              "[(''cubbyhole/'', \<lparr>Type = ''cubbyhole'', Options = Map.empty\<rparr>),
                (''secret/'', \<lparr>Type = ''generic'', Options = Map.empty\<rparr>)]"
              "''secret/''" "\<lparr>Type = ''generic'', Options = Map.empty\<rparr>"]
  by (simp add: HasPrefix_def ContainsRune_def)

text \<open>
  C5. For a matching mount of type \<open>kv\<close>, detection should fail when the version option is
  outside \<open>{1, 2}\<close>. \<open>getVersion\<close> of \<open>src/kv/kv.go\<close> does (\<open>getVersion_A_1_or_2\<close>); the
  first-segment and the mount-aware version return what \<open>strconv.Atoi\<close> returns, so version
  3 is accepted there and rejected by \<open>src/kv/kv.go\<close>.
\<close>

theorem getVersion_accepts_version_3:
  "getVersion_B ([(''secret/'', \<lparr>Type = ''kv'', Options = [''version'' \<mapsto> ''3'']\<rparr>)], None) ''secret/''
     = (3, None)
   \<and> getVersionAndMount ([(''secret/'', \<lparr>Type = ''kv'', Options = [''version'' \<mapsto> ''3'']\<rparr>)], None)
       ''secret/'' = (3, ''secret/'', None)
   \<and> getVersion_A ([(''secret/'', \<lparr>Type = ''kv'', Options = [''version'' \<mapsto> ''3'']\<rparr>)], None) ''secret/''
     = (3, Some (Errorf ''unknown version: %d'' [D 3]))"
  by (simp add: getVersion_A_def getVersion_B_def getVersionAndMount_def HasPrefix_def option_of_def
        Atoi_def ParseInt_def ParseUint_def is_digit_def digit_val_def)

text \<open>
  C6. The service answers the queried path (the rewritten path \<open>q\<close>) with no error and no
  secret: \<open>Read\<close> and \<open>List\<close> of \<open>src/kv/kv.go\<close> return nil and the error
  \<open>failed to read path\<close>, \<open>failed to list path\<close> with the path as the caller gave it. In the
  first-segment and the mount-aware version, \<open>Read\<close> and \<open>List\<close> return nil and no error when
  the secret is nil or its \<open>Data\<close> is nil.
\<close>

theorem not_found_policy:
  "((if Version c = 2 then fixPath_A p ReadPrefix else Ret p) = Ret q \<and> rd q = (None, None) \<longrightarrow>
      Read_A rd c p = Ret (None, Some (Errorf ''failed to read path %s'' [S p])))
   \<and> ((if Version c = 2 then fixPath_A p ListPrefix else Ret p) = Ret q \<and> rd q = (None, None) \<longrightarrow>
      List_A rd c p = Ret (None, Some (Errorf ''failed to list path %s'' [S p])))
   \<and> ((if Version c = 2 then FixPath_B p ReadPrefix else Ret p) = Ret q \<and> rd q = (s, None)
        \<and> (case s of None \<Rightarrow> True | Some s' \<Rightarrow> Data s' = None) \<longrightarrow>
      Read_B rd c p = Ret (None, None))
   \<and> ((if Version c = 2 then FixPath_B p ListPrefix else Ret p) = Ret q \<and> rd q = (s, None)
        \<and> (case s of None \<Rightarrow> True | Some s' \<Rightarrow> Data s' = None) \<longrightarrow>
      List_B rd c p = Ret (None, None))
   \<and> ((if Version c' = 2 then FixPath_C p (Mount c') ReadPrefix else Ret p) = Ret q \<and> rd q = (s, None)
        \<and> (case s of None \<Rightarrow> True | Some s' \<Rightarrow> Data s' = None) \<longrightarrow>
      Read_C rd c' p = Ret (None, None))
   \<and> ((if Version c' = 2 then FixPath_C p (Mount c') ListPrefix else Ret p) = Ret q \<and> rd q = (s, None)
        \<and> (case s of None \<Rightarrow> True | Some s' \<Rightarrow> Data s' = None) \<longrightarrow>
      List_C rd c' p = Ret (None, None))"
proof -
  have a1: "(if Version c = 2 then fixPath_A p ReadPrefix else Ret p) = Ret q \<and> rd q = (None, None) \<longrightarrow>
      Read_A rd c p = Ret (None, Some (Errorf ''failed to read path %s'' [S p]))"
    by (simp add: Read_A_def)
  have a2: "(if Version c = 2 then fixPath_A p ListPrefix else Ret p) = Ret q \<and> rd q = (None, None) \<longrightarrow>
      List_A rd c p = Ret (None, Some (Errorf ''failed to list path %s'' [S p]))"
    by (simp add: List_A_def)
  have b1: "(if Version c = 2 then FixPath_B p ReadPrefix else Ret p) = Ret q \<and> rd q = (s, None)
        \<and> (case s of None \<Rightarrow> True | Some s' \<Rightarrow> Data s' = None) \<longrightarrow>
      Read_B rd c p = Ret (None, None)"
    by (cases s) (simp_all add: Read_B_def)
  have b2: "(if Version c = 2 then FixPath_B p ListPrefix else Ret p) = Ret q \<and> rd q = (s, None)
        \<and> (case s of None \<Rightarrow> True | Some s' \<Rightarrow> Data s' = None) \<longrightarrow>
      List_B rd c p = Ret (None, None)"
    by (cases s) (simp_all add: List_B_def)
  have c1: "(if Version c' = 2 then FixPath_C p (Mount c') ReadPrefix else Ret p) = Ret q \<and> rd q = (s, None)
        \<and> (case s of None \<Rightarrow> True | Some s' \<Rightarrow> Data s' = None) \<longrightarrow>
      Read_C rd c' p = Ret (None, None)"
    by (cases s) (simp_all add: Read_C_def)
  have c2: "(if Version c' = 2 then FixPath_C p (Mount c') ListPrefix else Ret p) = Ret q \<and> rd q = (s, None)
        \<and> (case s of None \<Rightarrow> True | Some s' \<Rightarrow> Data s' = None) \<longrightarrow>
      List_C rd c' p = Ret (None, None)"
    by (cases s) (simp_all add: List_C_def)
  from a1 a2 b1 b2 c1 c2 show ?thesis by blast
qed

theorem not_found_policy_witness:
  "Read_A (store_Read Map.empty) \<lparr>Version = 2\<rparr> ''secret/test''
     = Ret (None, Some (Errorf ''failed to read path %s'' [S ''secret/test'']))
   \<and> List_A (store_Read Map.empty) \<lparr>Version = 2\<rparr> ''secret/test''
     = Ret (None, Some (Errorf ''failed to list path %s'' [S ''secret/test'']))
   \<and> Read_B (store_Read Map.empty) \<lparr>Version = 2\<rparr> ''secret/test'' = Ret (None, None)
   \<and> List_B (respond \<lparr>Data = None, Warnings = [], Auth = None\<rparr>) \<lparr>Version = 2\<rparr> ''secret/test''
     = Ret (None, None)
   \<and> Read_C (respond \<lparr>Data = None, Warnings = [], Auth = None\<rparr>)
        \<lparr>Version = 2, Mount = ''secret/''\<rparr> ''secret/test'' = Ret (None, None)
   \<and> List_C (store_Read Map.empty) \<lparr>Version = 2, Mount = ''secret/''\<rparr> ''secret/test''
     = Ret (None, None)"
  using not_found_policy
          [of "\<lparr>Version = 2\<rparr>" "''secret/test''" "''secret/data/test''" "store_Read Map.empty"
              None "\<lparr>Version = 2, Mount = ''secret/''\<rparr>"]
        not_found_policy
          [of "\<lparr>Version = 2\<rparr>" "''secret/test''" "''secret/metadata/test''" "store_Read Map.empty"
              None "\<lparr>Version = 2, Mount = ''secret/''\<rparr>"]
        not_found_policy
          [of "\<lparr>Version = 2\<rparr>" "''secret/test''" "''secret/data/test''"
              "respond \<lparr>Data = None, Warnings = [], Auth = None\<rparr>"
              "Some \<lparr>Data = None, Warnings = [], Auth = None\<rparr>"
              "\<lparr>Version = 2, Mount = ''secret/''\<rparr>"]
        not_found_policy
          [of "\<lparr>Version = 2\<rparr>" "''secret/test''" "''secret/metadata/test''"
              "respond \<lparr>Data = None, Warnings = [], Auth = None\<rparr>"
              "Some \<lparr>Data = None, Warnings = [], Auth = None\<rparr>"
              "\<lparr>Version = 2, Mount = ''secret/''\<rparr>"]
  by (simp add: fixPath_A_def FixPath_B_def FixPath_C_def path_Join_def Clean_def
        HasSuffix_def TrimPrefix_def HasPrefix_def ReadPrefix_def ListPrefix_def
        store_Read_def respond_def)

text \<open>
  C7. \<open>FixAuthMountPath\<close> on a path made of any number of leading \<open>/\<close>, then one or more
  ordinary segments (not empty, without \<open>/\<close>, neither \<open>.\<close> nor \<open>..\<close>) joined by \<open>/\<close>, then
  any number of trailing \<open>/\<close>: when the first segment is \<open>auth\<close> the result is the segments
  joined by \<open>/\<close>, that is the path without its leading and trailing \<open>/\<close>; otherwise it is
  \<open>auth/\<close> followed by that. The instances below are the four inputs of the specification.
\<close>

theorem FixAuthMountPath_prepends_auth:
  assumes "es \<noteq> []"
    and "\<forall>e\<in>set es. e \<noteq> [] \<and> CHR ''/'' \<notin> set e \<and> e \<noteq> ''.'' \<and> e \<noteq> ''..''"
  shows "FixAuthMountPath (replicate n CHR ''/'' @ Join es ''/'' @ replicate k CHR ''/'') =
           Ret (if hd es = ''auth'' then Join es ''/'' else ''auth/'' @ Join es ''/'')"
proof -
  from assms(1) obtain e0 rest where es: "es = e0 # rest" by (cases es) auto
  with assms(2) have e0: "e0 \<noteq> []" "e0 \<noteq> ''.''" "CHR ''/'' \<notin> set e0" by simp_all
  let ?segs = "es @ replicate k []"
  let ?s = "Join es ''/'' @ replicate k CHR ''/''"
  have s: "?s = Join ?segs ''/''"
    using Join_append_empties [OF assms(1), of k "CHR ''/''"] by simp
  have sne: "?s \<noteq> []" and hds: "hd ?s = hd e0"
    using Join_Cons_nonempty [OF e0(1), of rest "''/''"] es by auto
  have "hd e0 \<in> set e0" using e0(1) by simp
  with e0(3) hds have "hd ?s \<noteq> CHR ''/''" by auto
  then have trim: "TrimLeft (replicate n CHR ''/'' @ ?s) ''/'' = ?s"
    using TrimLeft_slashes [OF sne, of "CHR ''/''" n] by simp
  have segs: "\<forall>e\<in>set ?segs. CHR ''/'' \<notin> set e \<and> e \<noteq> ''..''"
    using assms(2) by (simp add: ball_Un)
  have segs_ne: "?segs \<noteq> []" using assms(1) by simp
  have split: "Split ?s CHR ''/'' = ?segs"
    unfolding s using Split_Join [OF segs_ne, of "CHR ''/''"] segs by simp
  have keep: "filter (\<lambda>e. e \<noteq> [] \<and> e \<noteq> ''.'') ?segs = es"
    using filter_plain [of es] assms(2) by simp
  have first: "?segs ! 0 = hd es" using es by simp
  have j1: "path_Join ?segs = Join es ''/''"
    using path_Join_segments [OF segs_ne _ _ segs] es e0 keep by simp
  have segs2: "\<forall>e\<in>set ([''auth''] @ ?segs). CHR ''/'' \<notin> set e \<and> e \<noteq> ''..''"
    using segs by simp
  have "path_Join ([''auth''] @ ?segs) =
          Join (filter (\<lambda>e. e \<noteq> [] \<and> e \<noteq> ''.'') ([''auth''] @ ?segs)) ''/''"
    by (rule path_Join_segments [OF _ _ _ segs2]) simp_all
  also have "\<dots> = Join (''auth'' # es) ''/''" using keep by simp
  also have "\<dots> = ''auth/'' @ Join es ''/''" using es by simp
  finally have j2: "path_Join ([''auth''] @ ?segs) = ''auth/'' @ Join es ''/''" .
  have "FixAuthMountPath (replicate n CHR ''/'' @ ?s) =
          Ret (if hd es = ''auth'' then Join es ''/'' else ''auth/'' @ Join es ''/'')"
    unfolding FixAuthMountPath_def trim Let_def split first j1 j2
    using segs_ne by simp
  then show ?thesis by simp
qed


theorem FixAuthMountPath_prepends_auth_witness:
  "FixAuthMountPath ''kubernetes'' = Ret ''auth/kubernetes''
   \<and> FixAuthMountPath ''/kubernetes/'' = Ret ''auth/kubernetes''
   \<and> FixAuthMountPath ''auth/kubernetes'' = Ret ''auth/kubernetes''
   \<and> FixAuthMountPath ''kubernetes/something'' = Ret ''auth/kubernetes/something''"
  using FixAuthMountPath_prepends_auth [of "[''kubernetes'']" 0 0]
        FixAuthMountPath_prepends_auth [of "[''kubernetes'']" "Suc 0" "Suc 0"]
        FixAuthMountPath_prepends_auth [of "[''auth'', ''kubernetes'']" 0 0]
        FixAuthMountPath_prepends_auth [of "[''kubernetes'', ''something'']" 0 0]
  by simp

text \<open>
  C8. When the identity token file is read and the login write answers with a secret whose
  warning list is not empty, \<open>Authenticate\<close> returns the empty token and an error, whatever
  \<open>Auth\<close> of that secret holds. When \<open>Authenticate\<close> returns a token and no error, the file
  was read, the login write returned a secret and no error, its warning list is empty and
  the token is the client token of its \<open>Auth\<close>.
\<close>

theorem Authenticate_fails_on_warnings:
  "(ReadFile d (ServiceAccountTokenPath v) = (content, None)
      \<and> FixAuthMountPath (AuthMountPath v) = Ret mp
      \<and> vaultLogical_Write d st (Token v) (path_Join [mp, ''login''])
            (Some [''role'' \<mapsto> VStr (Role v), ''jwt'' \<mapsto> VStr (TrimSpace d content)])
          = ((Some s, we), st')
      \<and> Warnings s \<noteq> []
    \<longrightarrow> Authenticate d v st =
          (Ret ([], Some (case we of
                            None \<Rightarrow> Errorf ''login failed with: %s'' [S (Join (Warnings s) '' - '')]
                          | Some err \<Rightarrow>
                              Wrap err ''login failed with role from environment variable VAULT_ROLE: %q''
                                [Q (Role v)])), st'))
   \<and> (fst (Authenticate d v st) = Ret (tok, None)
    \<longrightarrow> (\<exists>content mp s a st'.
          ReadFile d (ServiceAccountTokenPath v) = (content, None)
          \<and> FixAuthMountPath (AuthMountPath v) = Ret mp
          \<and> vaultLogical_Write d st (Token v) (path_Join [mp, ''login''])
                (Some [''role'' \<mapsto> VStr (Role v), ''jwt'' \<mapsto> VStr (TrimSpace d content)])
              = ((Some s, None), st')
          \<and> Warnings s = [] \<and> Auth s = Some a \<and> tok = ClientToken a))"
proof (intro conjI impI)
  assume "ReadFile d (ServiceAccountTokenPath v) = (content, None)
      \<and> FixAuthMountPath (AuthMountPath v) = Ret mp
      \<and> vaultLogical_Write d st (Token v) (path_Join [mp, ''login''])
            (Some [''role'' \<mapsto> VStr (Role v), ''jwt'' \<mapsto> VStr (TrimSpace d content)])
          = ((Some s, we), st')
      \<and> Warnings s \<noteq> []"
  then show "Authenticate d v st =
          (Ret ([], Some (case we of
                            None \<Rightarrow> Errorf ''login failed with: %s'' [S (Join (Warnings s) '' - '')]
                          | Some err \<Rightarrow>
                              Wrap err ''login failed with role from environment variable VAULT_ROLE: %q''
                                [Q (Role v)])), st')"
    by (cases we) (simp_all add: Authenticate_def Let_def)
next
  assume ok: "fst (Authenticate d v st) = Ret (tok, None)"
  obtain content e where rf: "ReadFile d (ServiceAccountTokenPath v) = (content, e)"
    by (cases "ReadFile d (ServiceAccountTokenPath v)")
  obtain mp where mp: "FixAuthMountPath (AuthMountPath v) = Ret mp"
    using FixAuthMountPath_returns by blast
  obtain so we st' where wr:
    "vaultLogical_Write d st (Token v) (path_Join [mp, ''login''])
       (Some [''role'' \<mapsto> VStr (Role v), ''jwt'' \<mapsto> VStr (TrimSpace d content)]) = ((so, we), st')"
    by (metis surj_pair)
  have e: "e = None"
    using ok rf by (cases e) (simp_all add: Authenticate_def Let_def)
  have we: "we = None"
    using ok rf e mp wr by (cases we; cases so) (simp_all add: Authenticate_def Let_def)
  obtain s where s: "so = Some s"
    using ok rf e mp wr we by (cases so) (simp_all add: Authenticate_def Let_def)
  have w: "Warnings s = []"
    using ok rf e mp wr we s by (cases "Warnings s") (simp_all add: Authenticate_def Let_def)
  obtain a where a: "Auth s = Some a"
    using ok rf e mp wr we s w by (cases "Auth s") (simp_all add: Authenticate_def Let_def)
  have "tok = ClientToken a"
    using ok rf e mp wr we s w a by (simp add: Authenticate_def Let_def)
  with rf e mp wr we s w a
  show "\<exists>content mp s a st'.
          ReadFile d (ServiceAccountTokenPath v) = (content, None)
          \<and> FixAuthMountPath (AuthMountPath v) = Ret mp
          \<and> vaultLogical_Write d st (Token v) (path_Join [mp, ''login''])
                (Some [''role'' \<mapsto> VStr (Role v), ''jwt'' \<mapsto> VStr (TrimSpace d content)])
              = ((Some s, None), st')
          \<and> Warnings s = [] \<and> Auth s = Some a \<and> tok = ClientToken a"
    by blast
qed

theorem Authenticate_fails_on_warnings_witness:
  "Authenticate (testDeps (oneFile ''sa-token'' ''jwt'') writerWithWarningAndToken renewOk)
       (testVault ''vault-token'' False) ()
     = (Ret ([], Some (Errorf ''login failed with: %s'' [S ''warning''])), ())
   \<and> fst (Authenticate (testDeps (oneFile ''sa-token'' ''jwt'') fakeWriter renewOk)
       (testVault ''vault-token'' False) ()) = Ret (rootToken, None)
   \<and> (\<exists>content mp s a st'.
          oneFile ''sa-token'' ''jwt'' ''sa-token'' = (content, None)
          \<and> FixAuthMountPath ''auth/kubernetes'' = Ret mp
          \<and> fakeWriter () [] (path_Join [mp, ''login''])
                (Some [''role'' \<mapsto> VStr [], ''jwt'' \<mapsto> VStr (noTrim content)])
              = ((Some s, None), st')
          \<and> Warnings s = [] \<and> Auth s = Some a \<and> rootToken = ClientToken a)"
proof -
  have ok: "fst (Authenticate (testDeps (oneFile ''sa-token'' ''jwt'') fakeWriter renewOk)
       (testVault ''vault-token'' False) ()) = Ret (rootToken, None)"
    by (simp add: Authenticate_def testDeps_def testVault_def oneFile_def fakeWriter_def
          FixAuthMountPath_def TrimLeft_def path_Join_def Clean_def)
  have fx: "FixAuthMountPath ''auth/kubernetes'' = Ret ''auth/kubernetes''"
    by (simp add: FixAuthMountPath_def TrimLeft_def path_Join_def Clean_def)
  show ?thesis
    using Authenticate_fails_on_warnings
            [of "testDeps (oneFile ''sa-token'' ''jwt'') writerWithWarningAndToken renewOk"
                "testVault ''vault-token'' False" "''jwt''" "''auth/kubernetes''" "()"
                "\<lparr>Data = None, Warnings = [''warning''],
                  Auth = Some \<lparr>ClientToken = rootToken\<rparr>\<rparr>" None "()" rootToken]
          Authenticate_fails_on_warnings
            [of "testDeps (oneFile ''sa-token'' ''jwt'') fakeWriter renewOk"
                "testVault ''vault-token'' False" "''jwt''" "''auth/kubernetes''" "()"
                "\<lparr>Data = None, Warnings = [], Auth = Some \<lparr>ClientToken = rootToken\<rparr>\<rparr>"
                None "()" rootToken]
          ok fx
    by (simp add: testDeps_def testVault_def oneFile_def writerWithWarningAndToken_def)
qed

text \<open>
  C9. With the re-auth flag false, a failure to load the token is not returned as it is:
  \<open>GetToken\<close> returns an error that wraps it.
\<close>

theorem GetToken_wraps_the_load_failure:
  "LoadToken (testDeps noFile fakeWriter renewOk) (testVault ''/not/existing/path'' False) =
     ([], Some (Wrap (Errorf ''open %s: no such file or directory'' [S ''/not/existing/path''])
                  ''failed to load token'' []))
   \<and> GetToken (testDeps noFile fakeWriter renewOk) (testVault ''/not/existing/path'' False) () =
     (Ret ([], Some (Wrap (Wrap (Errorf ''open %s: no such file or directory'' [S ''/not/existing/path''])
                             ''failed to load token'' [])
                       ''failed to load token form: %s'' [S ''/not/existing/path''])),
      testVault ''/not/existing/path'' False, ())
   \<and> fst (GetToken (testDeps noFile fakeWriter renewOk) (testVault ''/not/existing/path'' False) ()) \<noteq>
     Ret ([], Some (Wrap (Errorf ''open %s: no such file or directory'' [S ''/not/existing/path''])
                  ''failed to load token'' []))"
  by (simp add: GetToken_def LoadToken_def testDeps_def testVault_def noFile_def)

text \<open>
  C9, as the code has it. With the re-auth flag false, \<open>GetToken\<close> returns the empty token
  and the token-load failure wrapped with \<open>failed to load token form\<close> and the token path,
  or the self-renew failure wrapped with \<open>failed to renew token\<close>. With the flag true, a
  load or a renew failure gives the result of \<open>Authenticate\<close> (after a renew failure, on
  the handle whose client holds the loaded token and in the state the renewal left). When
  load and renew succeed, the loaded token is returned with no error.
\<close>

theorem GetToken_cases:
  "(LoadToken d v = (t, Some e) \<and> \<not> ReAuth v \<longrightarrow>
      GetToken d v st =
        (Ret ([], Some (Wrap e ''failed to load token form: %s'' [S (TokenPath v)])), v, st))
   \<and> (LoadToken d v = (t, Some e) \<and> ReAuth v \<longrightarrow>
      GetToken d v st = (fst (Authenticate d v st), v, snd (Authenticate d v st)))
   \<and> (LoadToken d v = (t, None) \<and> RenewSelf d st t (TTL v) = ((s, Some e), st') \<and> \<not> ReAuth v \<longrightarrow>
      GetToken d v st =
        (Ret ([], Some (Wrap e ''failed to renew token'' [])), v\<lparr>Token := t\<rparr>, st'))
   \<and> (LoadToken d v = (t, None) \<and> RenewSelf d st t (TTL v) = ((s, Some e), st') \<and> ReAuth v \<longrightarrow>
      GetToken d v st =
        (fst (Authenticate d (v\<lparr>Token := t\<rparr>) st'), v\<lparr>Token := t\<rparr>,
         snd (Authenticate d (v\<lparr>Token := t\<rparr>) st')))
   \<and> (LoadToken d v = (t, None) \<and> RenewSelf d st t (TTL v) = ((s, None), st') \<longrightarrow>
      GetToken d v st = (Ret (t, None), v\<lparr>Token := t\<rparr>, st'))"
  by (simp add: GetToken_def Let_def split: prod.splits)

theorem GetToken_cases_witness:
  "GetToken (testDeps noFile fakeWriter renewOk) (testVault ''/not/existing/path'' False) () =
     (Ret ([], Some (Wrap (Wrap (Errorf ''open %s: no such file or directory'' [S ''/not/existing/path''])
                             ''failed to load token'' [])
                       ''failed to load token form: %s'' [S ''/not/existing/path''])),
      testVault ''/not/existing/path'' False, ())
   \<and> GetToken (testDeps noFile fakeWriter renewOk) (testVault ''/not/existing/path'' True) () =
     (fst (Authenticate (testDeps noFile fakeWriter renewOk) (testVault ''/not/existing/path'' True) ()),
      testVault ''/not/existing/path'' True,
      snd (Authenticate (testDeps noFile fakeWriter renewOk) (testVault ''/not/existing/path'' True) ()))
   \<and> GetToken (testDeps (oneFile ''vault-token'' rootToken) fakeWriter renewFails)
        (testVault ''vault-token'' False) () =
     (Ret ([], Some (Wrap (Errorf ''permission denied'' []) ''failed to renew token'' [])),
      (testVault ''vault-token'' False)\<lparr>Token := rootToken\<rparr>, ())
   \<and> GetToken (testDeps (oneFile ''vault-token'' rootToken) fakeWriter renewFails)
        (testVault ''vault-token'' True) () =
     (fst (Authenticate (testDeps (oneFile ''vault-token'' rootToken) fakeWriter renewFails)
             ((testVault ''vault-token'' True)\<lparr>Token := rootToken\<rparr>) ()),
      (testVault ''vault-token'' True)\<lparr>Token := rootToken\<rparr>,
      snd (Authenticate (testDeps (oneFile ''vault-token'' rootToken) fakeWriter renewFails)
             ((testVault ''vault-token'' True)\<lparr>Token := rootToken\<rparr>) ()))
   \<and> GetToken (testDeps (oneFile ''vault-token'' rootToken) fakeWriter renewOk)
        (testVault ''vault-token'' False) () =
     (Ret (rootToken, None), (testVault ''vault-token'' False)\<lparr>Token := rootToken\<rparr>, ())"
proof -
  let ?e = "Wrap (Errorf ''open %s: no such file or directory'' [S ''/not/existing/path''])
              ''failed to load token'' []"
  have l1: "\<And>r. LoadToken (testDeps noFile fakeWriter renewOk) (testVault ''/not/existing/path'' r)
              = ([], Some ?e)"
    by (simp add: LoadToken_def testDeps_def testVault_def noFile_def)
  have l2: "\<And>r rn. LoadToken (testDeps (oneFile ''vault-token'' rootToken) fakeWriter rn)
              (testVault ''vault-token'' r) = (rootToken, None)"
    by (simp add: LoadToken_def testDeps_def testVault_def oneFile_def rootToken_def)
  have r1: "\<And>r. RenewSelf (testDeps (oneFile ''vault-token'' rootToken) fakeWriter renewFails) ()
              rootToken (TTL (testVault ''vault-token'' r))
              = ((None, Some (Errorf ''permission denied'' [])), ())"
    by (simp add: testDeps_def renewFails_def)
  have r2: "\<And>r. RenewSelf (testDeps (oneFile ''vault-token'' rootToken) fakeWriter renewOk) ()
              rootToken (TTL (testVault ''vault-token'' r))
              = ((Some \<lparr>Data = None, Warnings = [], Auth = None\<rparr>, None), ())"
    by (simp add: testDeps_def renewOk_def)
  have ra: "\<And>p. ReAuth (testVault p True)" "\<And>p. \<not> ReAuth (testVault p False)"
    by (simp_all add: testVault_def)
  have tp: "\<And>p r. TokenPath (testVault p r) = p"
    by (simp add: testVault_def)
  show ?thesis
    using GetToken_cases
            [of "testDeps noFile fakeWriter renewOk" "testVault ''/not/existing/path'' False"
                "[]" ?e "()" None "()"]
          GetToken_cases
            [of "testDeps noFile fakeWriter renewOk" "testVault ''/not/existing/path'' True"
                "[]" ?e "()" None "()"]
          GetToken_cases
            [of "testDeps (oneFile ''vault-token'' rootToken) fakeWriter renewFails"
                "testVault ''vault-token'' False" rootToken "Errorf ''permission denied'' []" "()"
                None "()"]
          GetToken_cases
            [of "testDeps (oneFile ''vault-token'' rootToken) fakeWriter renewFails"
                "testVault ''vault-token'' True" rootToken "Errorf ''permission denied'' []" "()"
                None "()"]
          GetToken_cases
            [of "testDeps (oneFile ''vault-token'' rootToken) fakeWriter renewOk"
                "testVault ''vault-token'' False" rootToken "Errorf ''permission denied'' []" "()"
                "Some \<lparr>Data = None, Warnings = [], Auth = None\<rparr>" "()"]
    by (simp add: l1 l2 r1 r2 ra tp)
qed

text \<open>
  C10. A non-nil secret whose body lacks the key does not always make the operation panic:
  in the first-segment and the mount-aware version a secret with a nil \<open>Data\<close> gives nil
  and no error, for \<open>Read\<close> on a revision 2 client and for \<open>List\<close>.
\<close>

theorem nil_body_does_not_panic:
  "index (Data \<lparr>Data = None, Warnings = [], Auth = None\<rparr>) ''data'' = VNil
   \<and> Read_B (respond \<lparr>Data = None, Warnings = [], Auth = None\<rparr>) \<lparr>Version = 2\<rparr> ''secret/foo''
       = Ret (None, None)
   \<and> Read_C (respond \<lparr>Data = None, Warnings = [], Auth = None\<rparr>)
         \<lparr>Version = 2, Mount = ''secret/''\<rparr> ''secret/foo'' = Ret (None, None)
   \<and> List_B (respond \<lparr>Data = None, Warnings = [], Auth = None\<rparr>) \<lparr>Version = 2\<rparr> ''secret/foo''
       = Ret (None, None)
   \<and> List_C (respond \<lparr>Data = None, Warnings = [], Auth = None\<rparr>)
         \<lparr>Version = 2, Mount = ''secret/''\<rparr> ''secret/foo'' = Ret (None, None)"
  by (simp add: index_def Read_B_def Read_C_def List_B_def List_C_def respond_def
        FixPath_B_def FixPath_C_def HasSuffix_def TrimPrefix_def HasPrefix_def
        ReadPrefix_def ListPrefix_def)

text \<open>
  C10, as the code has it. The service answers the queried path \<open>q\<close> with a secret and no
  error. \<open>Read\<close> on a revision 2 client panics with a failed type assertion when the value of
  the body under \<open>data\<close> is not a field map, and returns that field map when it is. \<open>List\<close>
  panics with a failed type assertion when the value under \<open>keys\<close> is not a list of strings,
  and returns the strings when it is. In \<open>src/kv/kv.go\<close> this holds for every such secret; in
  the first-segment and the mount-aware version for every such secret whose \<open>Data\<close> is not nil.
\<close>

theorem unguarded_type_assertions:
  assumes "rd q = (Some s, None)"
  shows
  "(Version c = 2 \<and> fixPath_A p ReadPrefix = Ret q \<longrightarrow>
      ((\<forall>m. index (Data s) ''data'' \<noteq> VMap m) \<longrightarrow> Read_A rd c p = Panic TypeAssertion)
      \<and> (\<forall>m. index (Data s) ''data'' = VMap m \<longrightarrow> Read_A rd c p = Ret (m, None)))
   \<and> (Version c = 2 \<and> FixPath_B p ReadPrefix = Ret q \<and> Data s \<noteq> None \<longrightarrow>
      ((\<forall>m. index (Data s) ''data'' \<noteq> VMap m) \<longrightarrow> Read_B rd c p = Panic TypeAssertion)
      \<and> (\<forall>m. index (Data s) ''data'' = VMap m \<longrightarrow> Read_B rd c p = Ret (m, None)))
   \<and> (Version c' = 2 \<and> FixPath_C p (Mount c') ReadPrefix = Ret q \<and> Data s \<noteq> None \<longrightarrow>
      ((\<forall>m. index (Data s) ''data'' \<noteq> VMap m) \<longrightarrow> Read_C rd c' p = Panic TypeAssertion)
      \<and> (\<forall>m. index (Data s) ''data'' = VMap m \<longrightarrow> Read_C rd c' p = Ret (m, None)))
   \<and> ((if Version c = 2 then fixPath_A p ListPrefix else Ret p) = Ret q \<longrightarrow>
      (\<not> (\<exists>ks. index (Data s) ''keys'' = VList (map VStr ks)) \<longrightarrow>
         List_A rd c p = Panic TypeAssertion)
      \<and> (\<forall>ks. index (Data s) ''keys'' = VList (map VStr ks) \<longrightarrow>
         List_A rd c p = Ret (Some ks, None)))
   \<and> ((if Version c = 2 then FixPath_B p ListPrefix else Ret p) = Ret q \<and> Data s \<noteq> None \<longrightarrow>
      (\<not> (\<exists>ks. index (Data s) ''keys'' = VList (map VStr ks)) \<longrightarrow>
         List_B rd c p = Panic TypeAssertion)
      \<and> (\<forall>ks. index (Data s) ''keys'' = VList (map VStr ks) \<longrightarrow>
         List_B rd c p = Ret (Some ks, None)))
   \<and> ((if Version c' = 2 then FixPath_C p (Mount c') ListPrefix else Ret p) = Ret q
        \<and> Data s \<noteq> None \<longrightarrow>
      (\<not> (\<exists>ks. index (Data s) ''keys'' = VList (map VStr ks)) \<longrightarrow>
         List_C rd c' p = Panic TypeAssertion)
      \<and> (\<forall>ks. index (Data s) ''keys'' = VList (map VStr ks) \<longrightarrow>
         List_C rd c' p = Ret (Some ks, None)))"
proof -
  have ra: "Version c = 2 \<and> fixPath_A p ReadPrefix = Ret q \<longrightarrow> Read_A rd c p = unwrap_data s"
    using assms by (simp add: Read_A_def)
  have rb: "Version c = 2 \<and> FixPath_B p ReadPrefix = Ret q \<and> Data s \<noteq> None \<longrightarrow>
              Read_B rd c p = unwrap_data s"
    using assms by (simp add: Read_B_def)
  have rc: "Version c' = 2 \<and> FixPath_C p (Mount c') ReadPrefix = Ret q \<and> Data s \<noteq> None \<longrightarrow>
              Read_C rd c' p = unwrap_data s"
    using assms by (simp add: Read_C_def)
  have la: "(if Version c = 2 then fixPath_A p ListPrefix else Ret p) = Ret q \<longrightarrow>
              List_A rd c p = extract_keys s"
    using assms by (simp add: List_A_def)
  have lb: "(if Version c = 2 then FixPath_B p ListPrefix else Ret p) = Ret q \<and> Data s \<noteq> None \<longrightarrow>
              List_B rd c p = extract_keys s"
    using assms by (simp add: List_B_def)
  have lc: "(if Version c' = 2 then FixPath_C p (Mount c') ListPrefix else Ret p) = Ret q
              \<and> Data s \<noteq> None \<longrightarrow> List_C rd c' p = extract_keys s"
    using assms by (simp add: List_C_def)
  have up: "(\<forall>m. index (Data s) ''data'' \<noteq> VMap m) \<longrightarrow> unwrap_data s = Panic TypeAssertion"
    using unwrap_data_panics by blast
  have uo: "\<forall>m. index (Data s) ''data'' = VMap m \<longrightarrow> unwrap_data s = Ret (m, None)"
    using unwrap_data_ok by blast
  have ep: "\<not> (\<exists>ks. index (Data s) ''keys'' = VList (map VStr ks)) \<longrightarrow>
              extract_keys s = Panic TypeAssertion"
    using extract_keys_panics by blast
  have eo: "\<forall>ks. index (Data s) ''keys'' = VList (map VStr ks) \<longrightarrow>
              extract_keys s = Ret (Some ks, None)"
    using extract_keys_ok by blast
  show ?thesis
    using ra rb rc la lb lc up uo ep eo by presburger
qed

theorem unguarded_type_assertions_witness:
  "Read_A (respond \<lparr>Data = Some Map.empty, Warnings = [], Auth = None\<rparr>) \<lparr>Version = 2\<rparr> ''secret/foo''
     = Panic TypeAssertion
   \<and> Read_B (respond \<lparr>Data = Some Map.empty, Warnings = [], Auth = None\<rparr>) \<lparr>Version = 2\<rparr> ''secret/foo''
     = Panic TypeAssertion
   \<and> Read_C (respond \<lparr>Data = Some Map.empty, Warnings = [], Auth = None\<rparr>)
        \<lparr>Version = 2, Mount = ''secret/''\<rparr> ''secret/foo'' = Panic TypeAssertion
   \<and> List_A (respond \<lparr>Data = Some [''keys'' \<mapsto> VStrings [''first'']], Warnings = [], Auth = None\<rparr>)
        \<lparr>Version = 2\<rparr> ''secret/foo'' = Panic TypeAssertion
   \<and> List_B (respond \<lparr>Data = Some [''keys'' \<mapsto> VStrings [''first'']], Warnings = [], Auth = None\<rparr>)
        \<lparr>Version = 2\<rparr> ''secret/foo'' = Panic TypeAssertion
   \<and> List_C (respond \<lparr>Data = Some [''keys'' \<mapsto> VStrings [''first'']], Warnings = [], Auth = None\<rparr>)
        \<lparr>Version = 2, Mount = ''secret/''\<rparr> ''secret/foo'' = Panic TypeAssertion
   \<and> Read_C (respond \<lparr>Data = Some [''data'' \<mapsto> VMap (Some [''k'' \<mapsto> VStr ''v''])],
                        Warnings = [], Auth = None\<rparr>)
        \<lparr>Version = 2, Mount = ''secret/''\<rparr> ''secret/foo'' = Ret (Some [''k'' \<mapsto> VStr ''v''], None)
   \<and> List_C (respond \<lparr>Data = Some [''keys'' \<mapsto> VList (map VStr [''first'', ''second''])],
                        Warnings = [], Auth = None\<rparr>)
        \<lparr>Version = 2, Mount = ''secret/''\<rparr> ''secret/foo'' = Ret (Some [''first'', ''second''], None)"
proof -
  have paths:
    "fixPath_A ''secret/foo'' ReadPrefix = Ret ''secret/data/foo''"
    "FixPath_B ''secret/foo'' ReadPrefix = Ret ''secret/data/foo''"
    "FixPath_C ''secret/foo'' ''secret/'' ReadPrefix = Ret ''secret/data/foo''"
    "fixPath_A ''secret/foo'' ListPrefix = Ret ''secret/metadata/foo''"
    "FixPath_B ''secret/foo'' ListPrefix = Ret ''secret/metadata/foo''"
    "FixPath_C ''secret/foo'' ''secret/'' ListPrefix = Ret ''secret/metadata/foo''"
    by (simp_all add: fixPath_A_def FixPath_B_def FixPath_C_def path_Join_def Clean_def
          HasSuffix_def TrimPrefix_def HasPrefix_def ReadPrefix_def ListPrefix_def)
  have r: "\<And>s q. respond s q = (Some s, None)"
    by (simp add: respond_def)
  have nokeys: "\<not> (\<exists>ks. VStrings [''first''] = VList (map VStr ks))"
    by simp
  show ?thesis
    using unguarded_type_assertions
            [where rd = "respond \<lparr>Data = Some Map.empty, Warnings = [], Auth = None\<rparr>"
               and s = "\<lparr>Data = Some Map.empty, Warnings = [], Auth = None\<rparr>"
               and q = "''secret/data/foo''" and p = "''secret/foo''"
               and c = "\<lparr>Version = 2\<rparr>" and c' = "\<lparr>Version = 2, Mount = ''secret/''\<rparr>"]
          unguarded_type_assertions
            [where rd = "respond \<lparr>Data = Some [''keys'' \<mapsto> VStrings [''first'']], Warnings = [], Auth = None\<rparr>"
               and s = "\<lparr>Data = Some [''keys'' \<mapsto> VStrings [''first'']], Warnings = [], Auth = None\<rparr>"
               and q = "''secret/metadata/foo''" and p = "''secret/foo''"
               and c = "\<lparr>Version = 2\<rparr>" and c' = "\<lparr>Version = 2, Mount = ''secret/''\<rparr>"]
          unguarded_type_assertions
            [where rd = "respond \<lparr>Data = Some [''data'' \<mapsto> VMap (Some [''k'' \<mapsto> VStr ''v''])], Warnings = [], Auth = None\<rparr>"
               and s = "\<lparr>Data = Some [''data'' \<mapsto> VMap (Some [''k'' \<mapsto> VStr ''v''])], Warnings = [], Auth = None\<rparr>"
               and q = "''secret/data/foo''" and p = "''secret/foo''"
               and c = "\<lparr>Version = 2\<rparr>" and c' = "\<lparr>Version = 2, Mount = ''secret/''\<rparr>"]
          unguarded_type_assertions
            [where rd = "respond \<lparr>Data = Some [''keys'' \<mapsto> VList (map VStr [''first'', ''second''])], Warnings = [], Auth = None\<rparr>"
               and s = "\<lparr>Data = Some [''keys'' \<mapsto> VList (map VStr [''first'', ''second''])], Warnings = [], Auth = None\<rparr>"
               and q = "''secret/metadata/foo''" and p = "''secret/foo''"
               and c = "\<lparr>Version = 2\<rparr>" and c' = "\<lparr>Version = 2, Mount = ''secret/''\<rparr>"]
    by (simp add: paths index_def nokeys r del: list.map)
qed

end
